theory Spec2Isabelle
  imports Main "HOL-Library.Word" "HOL-Library.Multiset"
begin

section \<open>The persistence adapter (sqlite.cc)\<close>

subsection \<open>The SQLite C library as an environment\<close>

text \<open>
  \<^verbatim>\<open>sqlite3*\<close> and \<^verbatim>\<open>sqlite3_stmt*\<close> are pointers: \<open>None\<close> is \<^verbatim>\<open>nullptr\<close>,
  \<open>Some a\<close> the object at address \<open>a\<close>. A C \<^verbatim>\<open>int\<close> value that is only passed through is a
  \<open>32 word\<close>, an \<^verbatim>\<open>int64_t\<close>, an \<^verbatim>\<open>Address\<close> and the bit pattern of a \<^verbatim>\<open>double\<close> are
  \<open>64 word\<close>. Return codes and the two running counters are \<open>int\<close>: the code only compares
  the former, and increments the latter by one from zero (signed overflow is undefined in
  C++ and lies outside this model).
\<close>

type_synonym sqlite3 = nat
type_synonym sqlite3_stmt = nat

text \<open>Every call into the library is recorded, in order, in a log.\<close>

datatype api_call =
    Call_open string
  | Call_close "sqlite3 option"
  | Call_errmsg "sqlite3 option"
  | Call_prepare_v2 "sqlite3 option" string nat
  | Call_finalize "sqlite3_stmt option"
  | Call_bind_int "sqlite3_stmt option" int "32 word"
  | Call_bind_int64 "sqlite3_stmt option" int "64 word"
  | Call_bind_double "sqlite3_stmt option" int "64 word"
  | Call_bind_text "sqlite3_stmt option" int string nat
  | Call_bind_null "sqlite3_stmt option" int
  | Call_column_type "sqlite3_stmt option" int
  | Call_column_int "sqlite3_stmt option" int
  | Call_column_int64 "sqlite3_stmt option" int
  | Call_column_double "sqlite3_stmt option" int
  | Call_column_text "sqlite3_stmt option" int
  | Call_step "sqlite3_stmt option"
  | Call_sql "sqlite3_stmt option"
  | Call_reset "sqlite3_stmt option"

type_synonym world = "api_call list"

text \<open>
  What the library answers is a parameter of the model. An answer may depend on the whole
  history of calls (the library is stateful: \<^verbatim>\<open>sqlite3_step\<close> yields row after row).
  The results of the \<^verbatim>\<open>sqlite3_bind_*\<close>, \<^verbatim>\<open>sqlite3_close\<close>, \<^verbatim>\<open>sqlite3_finalize\<close> and
  \<^verbatim>\<open>sqlite3_reset\<close> calls are discarded by the code, so they need no answer.
\<close>

record sqlite3_library =
  sqlite3_open :: "world \<Rightarrow> string \<Rightarrow> int \<times> sqlite3 option"
  sqlite3_errmsg :: "world \<Rightarrow> sqlite3 option \<Rightarrow> string"
  sqlite3_prepare_v2 :: "world \<Rightarrow> sqlite3 option \<Rightarrow> string \<Rightarrow> nat \<Rightarrow> int \<times> sqlite3_stmt option"
  sqlite3_step :: "world \<Rightarrow> sqlite3_stmt option \<Rightarrow> int"
  sqlite3_sql :: "world \<Rightarrow> sqlite3_stmt option \<Rightarrow> string"
  sqlite3_column_type :: "world \<Rightarrow> sqlite3_stmt option \<Rightarrow> int \<Rightarrow> int"
  sqlite3_column_int :: "world \<Rightarrow> sqlite3_stmt option \<Rightarrow> int \<Rightarrow> 32 word"
  sqlite3_column_int64 :: "world \<Rightarrow> sqlite3_stmt option \<Rightarrow> int \<Rightarrow> 64 word"
  sqlite3_column_double :: "world \<Rightarrow> sqlite3_stmt option \<Rightarrow> int \<Rightarrow> 64 word"
  sqlite3_column_text :: "world \<Rightarrow> sqlite3_stmt option \<Rightarrow> int \<Rightarrow> string option"

text \<open>The constants of \<^verbatim>\<open>sqlite3.h\<close> that the code compares against.\<close>

definition SQLITE_OK :: int where "SQLITE_OK = 0"
definition SQLITE_ROW :: int where "SQLITE_ROW = 100"
definition SQLITE_DONE :: int where "SQLITE_DONE = 101"
definition SQLITE_NULL :: int where "SQLITE_NULL = 5"

datatype exn = runtime_error string

definition quote :: string where
  "quote = [CHR 0x27]"

subsection \<open>SqliteDatabase\<close>

text \<open>
  A data member \<^verbatim>\<open>x_\<close> of a C++ class is the record field \<open>m_x\<close> (a name cannot end
  in an underscore here).
\<close>

record SqliteDatabase =
  m_database :: "sqlite3 option"

definition SqliteDatabase_default :: SqliteDatabase where
  "SqliteDatabase_default = \<lparr>m_database = None\<rparr>"

definition Connect ::
  "sqlite3_library \<Rightarrow> string \<Rightarrow> SqliteDatabase \<Rightarrow> world \<Rightarrow> (exn + unit) \<times> SqliteDatabase \<times> world" where
  "Connect lib filename db w =
     (if m_database db \<noteq> None then (Inl (runtime_error ''database already open''), db, w)
      else
        let (rc, handle) = sqlite3_open lib w filename;
            db1 = db\<lparr>m_database := handle\<rparr>;
            w1 = w @ [Call_open filename]
        in if rc \<noteq> SQLITE_OK then
             let error = sqlite3_errmsg lib w1 (m_database db1);
                 w2 = w1 @ [Call_errmsg (m_database db1)];
                 w3 = w2 @ [Call_close (m_database db1)];
                 db2 = db1\<lparr>m_database := None\<rparr>
             in (Inl (runtime_error (''failed opening database: '' @ quote @ error @ quote
                        @ '', filename: '' @ quote @ filename @ quote)), db2, w3)
           else if m_database db1 = None then
             (Inl (runtime_error ''failed opening database''), db1, w1)
           else (Inr (), db1, w1))"

text \<open>The constructor taking a file name; when \<open>Connect\<close> throws, no object comes to exist.\<close>

definition SqliteDatabase_open ::
  "sqlite3_library \<Rightarrow> string \<Rightarrow> world \<Rightarrow> (exn + SqliteDatabase) \<times> world" where
  "SqliteDatabase_open lib filename w =
     (case Connect lib filename SqliteDatabase_default w of
        (Inl e, db, w') \<Rightarrow> (Inl e, w')
      | (Inr u, db, w') \<Rightarrow> (Inr db, w'))"

definition Disconnect :: "SqliteDatabase \<Rightarrow> world \<Rightarrow> SqliteDatabase \<times> world" where
  "Disconnect db w =
     (if m_database db = None then (db, w)
      else (db\<lparr>m_database := None\<rparr>, w @ [Call_close (m_database db)]))"

subsection \<open>SqliteStatement\<close>

record SqliteStatement =
  m_stmt_database :: "sqlite3 option"
  m_statement :: "sqlite3_stmt option"
  m_parameter :: int
  m_column :: int
  m_got_data :: bool

text \<open>
  The constructor (also reached through \<^verbatim>\<open>SqliteDatabase::Statement\<close>). \<^verbatim>\<open>strlen\<close> of the
  statement text is its length.
\<close>

definition Statement ::
  "sqlite3_library \<Rightarrow> SqliteDatabase \<Rightarrow> string \<Rightarrow> world \<Rightarrow> (exn + SqliteStatement) \<times> world" where
  "Statement lib database statement w =
     (let st = \<lparr>m_stmt_database = m_database database, m_statement = None,
                m_parameter = 0, m_column = 0, m_got_data = False\<rparr>;
          (rc, handle) = sqlite3_prepare_v2 lib w (m_stmt_database st) statement (length statement);
          st1 = st\<lparr>m_statement := handle\<rparr>;
          w1 = w @ [Call_prepare_v2 (m_stmt_database st) statement (length statement)]
      in if rc \<noteq> SQLITE_OK then
           let error = sqlite3_errmsg lib w1 (m_stmt_database st1);
               w2 = w1 @ [Call_errmsg (m_stmt_database st1)]
           in (Inl (runtime_error (''error preparing statement '' @ quote @ statement @ quote
                      @ '', '' @ quote @ error @ quote)), w2)
         else (Inr st1, w1))"

definition SqliteStatement_destroy :: "SqliteStatement \<Rightarrow> world \<Rightarrow> world" where
  "SqliteStatement_destroy st w = w @ [Call_finalize (m_statement st)]"

definition BindInt :: "32 word \<Rightarrow> SqliteStatement \<Rightarrow> world \<Rightarrow> SqliteStatement \<times> world" where
  "BindInt v st w =
     (let st1 = st\<lparr>m_parameter := m_parameter st + 1\<rparr>
      in (st1, w @ [Call_bind_int (m_statement st1) (m_parameter st1) v]))"

definition BindInt64 :: "64 word \<Rightarrow> SqliteStatement \<Rightarrow> world \<Rightarrow> SqliteStatement \<times> world" where
  "BindInt64 v st w =
     (let st1 = st\<lparr>m_parameter := m_parameter st + 1\<rparr>
      in (st1, w @ [Call_bind_int64 (m_statement st1) (m_parameter st1) v]))"

definition BindDouble :: "64 word \<Rightarrow> SqliteStatement \<Rightarrow> world \<Rightarrow> SqliteStatement \<times> world" where
  "BindDouble v st w =
     (let st1 = st\<lparr>m_parameter := m_parameter st + 1\<rparr>
      in (st1, w @ [Call_bind_double (m_statement st1) (m_parameter st1) v]))"

definition BindText :: "string \<Rightarrow> SqliteStatement \<Rightarrow> world \<Rightarrow> SqliteStatement \<times> world" where
  "BindText v st w =
     (let st1 = st\<lparr>m_parameter := m_parameter st + 1\<rparr>
      in (st1, w @ [Call_bind_text (m_statement st1) (m_parameter st1) v (length v)]))"

definition BindNull :: "SqliteStatement \<Rightarrow> world \<Rightarrow> SqliteStatement \<times> world" where
  "BindNull st w =
     (let st1 = st\<lparr>m_parameter := m_parameter st + 1\<rparr>
      in (st1, w @ [Call_bind_null (m_statement st1) (m_parameter st1)]))"

text \<open>
  The \<open>Into\<close> overloads write through two pointers. The Boolean argument says whether
  \<^verbatim>\<open>is_null\<close> is a non-null pointer; the first component of the result is what was
  stored through \<^verbatim>\<open>value\<close> and, if anything, through \<^verbatim>\<open>is_null\<close>.
\<close>

definition read_is_null ::
  "sqlite3_library \<Rightarrow> bool \<Rightarrow> SqliteStatement \<Rightarrow> world \<Rightarrow> bool option \<times> world" where
  "read_is_null lib is_null st w =
     (if is_null then
        (Some (sqlite3_column_type lib w (m_statement st) (m_column st) = SQLITE_NULL),
         w @ [Call_column_type (m_statement st) (m_column st)])
      else (None, w))"

definition Into_int ::
  "sqlite3_library \<Rightarrow> bool \<Rightarrow> SqliteStatement \<Rightarrow> world
     \<Rightarrow> (32 word \<times> bool option) \<times> SqliteStatement \<times> world" where
  "Into_int lib is_null st w =
     (let (n, w1) = read_is_null lib is_null st w;
          v = sqlite3_column_int lib w1 (m_statement st) (m_column st);
          w2 = w1 @ [Call_column_int (m_statement st) (m_column st)]
      in ((v, n), st\<lparr>m_column := m_column st + 1\<rparr>, w2))"

definition Into_int64 ::
  "sqlite3_library \<Rightarrow> bool \<Rightarrow> SqliteStatement \<Rightarrow> world
     \<Rightarrow> (64 word \<times> bool option) \<times> SqliteStatement \<times> world" where
  "Into_int64 lib is_null st w =
     (let (n, w1) = read_is_null lib is_null st w;
          v = sqlite3_column_int64 lib w1 (m_statement st) (m_column st);
          w2 = w1 @ [Call_column_int64 (m_statement st) (m_column st)]
      in ((v, n), st\<lparr>m_column := m_column st + 1\<rparr>, w2))"

text \<open>\<^verbatim>\<open>Address\<close> is an unsigned 64-bit integer: the cast keeps the bits.\<close>

definition Into_Address ::
  "sqlite3_library \<Rightarrow> bool \<Rightarrow> SqliteStatement \<Rightarrow> world
     \<Rightarrow> (64 word \<times> bool option) \<times> SqliteStatement \<times> world" where
  "Into_Address lib is_null st w =
     (let (n, w1) = read_is_null lib is_null st w;
          v = sqlite3_column_int64 lib w1 (m_statement st) (m_column st);
          w2 = w1 @ [Call_column_int64 (m_statement st) (m_column st)]
      in ((v, n), st\<lparr>m_column := m_column st + 1\<rparr>, w2))"

definition Into_double ::
  "sqlite3_library \<Rightarrow> bool \<Rightarrow> SqliteStatement \<Rightarrow> world
     \<Rightarrow> (64 word \<times> bool option) \<times> SqliteStatement \<times> world" where
  "Into_double lib is_null st w =
     (let (n, w1) = read_is_null lib is_null st w;
          v = sqlite3_column_double lib w1 (m_statement st) (m_column st);
          w2 = w1 @ [Call_column_double (m_statement st) (m_column st)]
      in ((v, n), st\<lparr>m_column := m_column st + 1\<rparr>, w2))"

text \<open>The string overload leaves \<^verbatim>\<open>*value\<close> as it was when the column text is null.\<close>

definition Into_string ::
  "sqlite3_library \<Rightarrow> string \<Rightarrow> bool \<Rightarrow> SqliteStatement \<Rightarrow> world
     \<Rightarrow> (string \<times> bool option) \<times> SqliteStatement \<times> world" where
  "Into_string lib old_value is_null st w =
     (let (n, w1) = read_is_null lib is_null st w;
          v = (case sqlite3_column_text lib w1 (m_statement st) (m_column st) of
                 Some data \<Rightarrow> data
               | None \<Rightarrow> old_value);
          w2 = w1 @ [Call_column_text (m_statement st) (m_column st)]
      in ((v, n), st\<lparr>m_column := m_column st + 1\<rparr>, w2))"

definition Execute ::
  "sqlite3_library \<Rightarrow> SqliteStatement \<Rightarrow> world \<Rightarrow> (exn + unit) \<times> SqliteStatement \<times> world" where
  "Execute lib st w =
     (let return_code = sqlite3_step lib w (m_statement st);
          w1 = w @ [Call_step (m_statement st)]
      in if return_code \<noteq> SQLITE_ROW \<and> return_code \<noteq> SQLITE_DONE then
           let error = sqlite3_errmsg lib w1 (m_stmt_database st);
               w2 = w1 @ [Call_errmsg (m_stmt_database st)];
               sql = sqlite3_sql lib w2 (m_statement st);
               w3 = w2 @ [Call_sql (m_statement st)]
           in (Inl (runtime_error (''error executing statement '' @ quote @ sql @ quote
                      @ '', '' @ quote @ error @ quote)), st, w3)
         else
           (Inr (), st\<lparr>m_parameter := 0, m_column := 0, m_got_data := (return_code = SQLITE_ROW)\<rparr>, w1))"

definition Reset :: "SqliteStatement \<Rightarrow> world \<Rightarrow> SqliteStatement \<times> world" where
  "Reset st w = (st\<lparr>m_got_data := False\<rparr>, w @ [Call_reset (m_statement st)])"

definition GotData :: "SqliteStatement \<Rightarrow> bool" where
  "GotData st = m_got_data st"

text \<open>
  \<^verbatim>\<open>Begin\<close>, \<^verbatim>\<open>Commit\<close> and \<^verbatim>\<open>Rollback\<close> prepare a statement, execute it, and let the
  temporary go out of scope, on the normal path and when \<open>Execute\<close> throws.
\<close>

definition execute_once ::
  "sqlite3_library \<Rightarrow> string \<Rightarrow> SqliteDatabase \<Rightarrow> world \<Rightarrow> (exn + unit) \<times> world" where
  "execute_once lib sql db w =
     (case Statement lib db sql w of
        (Inl e, w1) \<Rightarrow> (Inl e, w1)
      | (Inr st, w1) \<Rightarrow>
          (case Execute lib st w1 of (r, st', w2) \<Rightarrow> (r, SqliteStatement_destroy st' w2)))"

definition Begin :: "sqlite3_library \<Rightarrow> SqliteDatabase \<Rightarrow> world \<Rightarrow> (exn + unit) \<times> world" where
  "Begin lib = execute_once lib ''begin transaction''"

definition Commit :: "sqlite3_library \<Rightarrow> SqliteDatabase \<Rightarrow> world \<Rightarrow> (exn + unit) \<times> world" where
  "Commit lib = execute_once lib ''commit transaction''"

definition Rollback :: "sqlite3_library \<Rightarrow> SqliteDatabase \<Rightarrow> world \<Rightarrow> (exn + unit) \<times> world" where
  "Rollback lib = execute_once lib ''rollback transaction''"

subsection \<open>Chains of bind and extract calls\<close>

text \<open>
  The five \<open>Bind\<close> members and the five \<open>Into\<close> overloads return \<^verbatim>\<open>*this\<close> and are
  chained by their callers. A chain is a list of calls, run from left to right.
\<close>

datatype bind_arg =
    Bind_int "32 word"
  | Bind_int64 "64 word"
  | Bind_double "64 word"
  | Bind_text string
  | Bind_null

fun Bind :: "bind_arg \<Rightarrow> SqliteStatement \<Rightarrow> world \<Rightarrow> SqliteStatement \<times> world" where
  "Bind (Bind_int v) st w = BindInt v st w"
| "Bind (Bind_int64 v) st w = BindInt64 v st w"
| "Bind (Bind_double v) st w = BindDouble v st w"
| "Bind (Bind_text v) st w = BindText v st w"
| "Bind Bind_null st w = BindNull st w"

fun Binds :: "bind_arg list \<Rightarrow> SqliteStatement \<Rightarrow> world \<Rightarrow> SqliteStatement \<times> world" where
  "Binds [] st w = (st, w)"
| "Binds (a # as) st w = (case Bind a st w of (st', w') \<Rightarrow> Binds as st' w')"

datatype into_target =
    Target_int
  | Target_int64
  | Target_Address
  | Target_double
  | Target_string string

datatype column_value =
    Value_int "32 word"
  | Value_int64 "64 word"
  | Value_Address "64 word"
  | Value_double "64 word"
  | Value_string string

fun Into ::
  "sqlite3_library \<Rightarrow> into_target \<times> bool \<Rightarrow> SqliteStatement \<Rightarrow> world
     \<Rightarrow> (column_value \<times> bool option) \<times> SqliteStatement \<times> world" where
  "Into lib (Target_int, is_null) st w =
     (case Into_int lib is_null st w of ((v, n), st', w') \<Rightarrow> ((Value_int v, n), st', w'))"
| "Into lib (Target_int64, is_null) st w =
     (case Into_int64 lib is_null st w of ((v, n), st', w') \<Rightarrow> ((Value_int64 v, n), st', w'))"
| "Into lib (Target_Address, is_null) st w =
     (case Into_Address lib is_null st w of ((v, n), st', w') \<Rightarrow> ((Value_Address v, n), st', w'))"
| "Into lib (Target_double, is_null) st w =
     (case Into_double lib is_null st w of ((v, n), st', w') \<Rightarrow> ((Value_double v, n), st', w'))"
| "Into lib (Target_string old_value, is_null) st w =
     (case Into_string lib old_value is_null st w of
        ((v, n), st', w') \<Rightarrow> ((Value_string v, n), st', w'))"

fun Intos ::
  "sqlite3_library \<Rightarrow> (into_target \<times> bool) list \<Rightarrow> SqliteStatement \<Rightarrow> world
     \<Rightarrow> (column_value \<times> bool option) list \<times> SqliteStatement \<times> world" where
  "Intos lib [] st w = ([], st, w)"
| "Intos lib (t # ts) st w =
     (case Into lib t st w of
        (r, st', w') \<Rightarrow> (case Intos lib ts st' w' of (rs, st'', w'') \<Rightarrow> (r # rs, st'', w'')))"

text \<open>
  The library call that binds the value \<open>a\<close> to the positional parameter \<open>i\<close> of a
  statement, and the calls that read column \<open>c\<close> for a target.
\<close>

fun bind_call :: "sqlite3_stmt option \<Rightarrow> int \<Rightarrow> bind_arg \<Rightarrow> api_call" where
  "bind_call s i (Bind_int v) = Call_bind_int s i v"
| "bind_call s i (Bind_int64 v) = Call_bind_int64 s i v"
| "bind_call s i (Bind_double v) = Call_bind_double s i v"
| "bind_call s i (Bind_text v) = Call_bind_text s i v (length v)"
| "bind_call s i Bind_null = Call_bind_null s i"

fun column_call :: "sqlite3_stmt option \<Rightarrow> int \<Rightarrow> into_target \<Rightarrow> api_call" where
  "column_call s c Target_int = Call_column_int s c"
| "column_call s c Target_int64 = Call_column_int64 s c"
| "column_call s c Target_Address = Call_column_int64 s c"
| "column_call s c Target_double = Call_column_double s c"
| "column_call s c (Target_string old_value) = Call_column_text s c"

definition column_calls :: "sqlite3_stmt option \<Rightarrow> int \<Rightarrow> into_target \<times> bool \<Rightarrow> api_call list" where
  "column_calls s c t =
     (if snd t then [Call_column_type s c] else []) @ [column_call s c (fst t)]"

text \<open>
  What an extraction from column \<open>c\<close> hands to its caller when the log is \<open>w\<close>: the
  library's value for that column, converted for the target (for a string target the old
  content when the library has no text), and, if asked for, whether the library reports the
  column's type as \<open>SQLITE_NULL\<close>. The type, when asked for, is read before the value.
\<close>

fun column_value_at ::
  "sqlite3_library \<Rightarrow> world \<Rightarrow> sqlite3_stmt option \<Rightarrow> int \<Rightarrow> into_target \<Rightarrow> column_value" where
  "column_value_at lib w s c Target_int = Value_int (sqlite3_column_int lib w s c)"
| "column_value_at lib w s c Target_int64 = Value_int64 (sqlite3_column_int64 lib w s c)"
| "column_value_at lib w s c Target_Address = Value_Address (sqlite3_column_int64 lib w s c)"
| "column_value_at lib w s c Target_double = Value_double (sqlite3_column_double lib w s c)"
| "column_value_at lib w s c (Target_string old_value) =
     Value_string (case sqlite3_column_text lib w s c of Some data \<Rightarrow> data | None \<Rightarrow> old_value)"

definition extracted ::
  "sqlite3_library \<Rightarrow> world \<Rightarrow> sqlite3_stmt option \<Rightarrow> int \<Rightarrow> into_target \<times> bool
     \<Rightarrow> column_value \<times> bool option" where
  "extracted lib w s c t =
     (column_value_at lib (w @ (if snd t then [Call_column_type s c] else [])) s c (fst t),
      if snd t then Some (sqlite3_column_type lib w s c = SQLITE_NULL) else None)"

text \<open>The same for a chain of extractions that starts at column \<open>c\<close>.\<close>

fun extracted_chain ::
  "sqlite3_library \<Rightarrow> world \<Rightarrow> sqlite3_stmt option \<Rightarrow> int \<Rightarrow> (into_target \<times> bool) list
     \<Rightarrow> (column_value \<times> bool option) list" where
  "extracted_chain lib w s c [] = []"
| "extracted_chain lib w s c (t # ts) =
     extracted lib w s c t # extracted_chain lib (w @ column_calls s c t) s (c + 1) ts"

text \<open>The calls of one kind in a log.\<close>

fun is_open :: "api_call \<Rightarrow> bool" where
  "is_open (Call_open f) = True"
| "is_open c = False"

fun is_prepare :: "api_call \<Rightarrow> bool" where
  "is_prepare (Call_prepare_v2 d s n) = True"
| "is_prepare c = False"

fun is_step :: "api_call \<Rightarrow> bool" where
  "is_step (Call_step s) = True"
| "is_step c = False"

subsection \<open>A scripted library\<close>

text \<open>
  A library to run the adapter against: the file \<open>missing.db\<close> cannot be opened (code
  14, with a handle that must still be closed), \<open>nomem.db\<close> reports success without a
  handle, every other file opens; the statement \<open>bogus\<close> does not prepare (code 1); a
  statement yields two rows and is then done, and the statement at address 13 fails to
  step (code 19).
\<close>

definition scripted :: sqlite3_library where
  "scripted = \<lparr>
     sqlite3_open = (\<lambda>w f. if f = ''missing.db'' then (14, Some 7)
                            else if f = ''nomem.db'' then (0, None) else (0, Some 3)),
     sqlite3_errmsg = (\<lambda>w d. ''unable to open database file''),
     sqlite3_prepare_v2 = (\<lambda>w d s n. if s = ''bogus'' then (1, None) else (0, Some 11)),
     sqlite3_step = (\<lambda>w s. if s = Some 13 then 19
                            else if length (filter is_step w) < 2 then 100 else 101),
     sqlite3_sql = (\<lambda>w s. ''insert into t values (?, ?)''),
     sqlite3_column_type = (\<lambda>w s c. if c = 1 then 5 else 1),
     sqlite3_column_int = (\<lambda>w s c. 40 + word_of_int c),
     sqlite3_column_int64 = (\<lambda>w s c. 4000 + word_of_int c),
     sqlite3_column_double = (\<lambda>w s c. 0),
     sqlite3_column_text = (\<lambda>w s c. if c = 1 then None else Some ''text'')
   \<rparr>"

section \<open>The instruction-prime matching step (flow_graph_match_basic_block_prime.h)\<close>

subsection \<open>The types the header takes from flow_graph_match.h\<close>

text \<open>
  The header includes \<^verbatim>\<open>flow_graph_match.h\<close>, which declares \<^verbatim>\<open>FlowGraph\<close>,
  \<^verbatim>\<open>FixedPoint\<close>, \<^verbatim>\<open>VertexSet\<close>, \<^verbatim>\<open>VertexIntMap\<close> and the base class
  \<^verbatim>\<open>MatchingStepFlowGraph\<close>. These declarations are modelled from the specification.

  A vertex is the ordinal index of a basic block. A vertex set is given by the sequence in
  which the loop \<^verbatim>\<open>for (auto vertex : vertices)\<close> visits it. A fingerprint is a product of
  primes, a natural number.
\<close>

type_synonym Vertex = nat
type_synonym VertexSet = "Vertex list"

text \<open>
  Modelled from the spec: the Fixed Point, which is missing from the sources. It is the
  accepted correspondence of one function pair, each pair with its provenance (the name of
  the matching step that produced it). The confidence score is computed when the run is
  finalised and is not part of this model.
\<close>

record BasicBlockFixedPoint =
  primary_vertex :: Vertex
  secondary_vertex :: Vertex
  matching_step :: string

type_synonym FixedPoint = "BasicBlockFixedPoint list"

text \<open>
  Modelled from the spec: the Flow Graph, through the accessor contract the step uses. The
  graph owns its vertices and exposes per vertex the instruction count, the fingerprint
  and the accepted match, if any (the only part that changes during matching). Edges are
  read by no code of the step. The instruction count is a signed integer like the
  threshold it is compared with, so that \<^verbatim>\<open>>=\<close> compares two integers.
\<close>

record FlowGraph =
  vertex_list :: "Vertex list"
  instruction_count :: "Vertex \<Rightarrow> int"
  prime :: "Vertex \<Rightarrow> nat"
  fixed_point :: "Vertex \<Rightarrow> BasicBlockFixedPoint option"

definition GetFixedPoint :: "FlowGraph \<Rightarrow> Vertex \<Rightarrow> BasicBlockFixedPoint option" where
  "GetFixedPoint flow_graph vertex = fixed_point flow_graph vertex"

definition GetInstructionCount :: "FlowGraph \<Rightarrow> Vertex \<Rightarrow> int" where
  "GetInstructionCount flow_graph vertex = instruction_count flow_graph vertex"

definition GetPrime :: "FlowGraph \<Rightarrow> Vertex \<Rightarrow> nat" where
  "GetPrime flow_graph vertex = prime flow_graph vertex"

text \<open>
  Modelled from the spec: the feature index \<^verbatim>\<open>VertexIntMap\<close>, a multimap from a
  fingerprint to the vertices sharing it. The entries are kept in key order; an entry with
  a key already present goes behind the entries with that key.
\<close>

type_synonym VertexIntMap = "(nat \<times> Vertex) list"

definition clear :: "VertexIntMap \<Rightarrow> VertexIntMap" where
  "clear m = []"

fun emplace :: "nat \<Rightarrow> Vertex \<Rightarrow> VertexIntMap \<Rightarrow> VertexIntMap" where
  "emplace k v [] = [(k, v)]"
| "emplace k v (e # m) = (if k < fst e then (k, v) # e # m else e # emplace k v m)"

definition count_key :: "nat \<Rightarrow> VertexIntMap \<Rightarrow> nat" where
  "count_key k m = length (filter (\<lambda>e. fst e = k) m)"

subsection \<open>MatchingStepPrimeBasicBlock\<close>

text \<open>\<^verbatim>\<open>absl::StrCat\<close> renders an \<^verbatim>\<open>int\<close> in decimal, with a minus sign when negative.\<close>

fun digits :: "nat \<Rightarrow> string" where
  "digits n =
     (if n < 10 then [char_of (48 + n)] else digits (n div 10) @ [char_of (48 + n mod 10)])"

declare digits.simps [simp del]

definition StrCat_int :: "int \<Rightarrow> string" where
  "StrCat_int i = (if i < 0 then CHR ''-'' # digits (nat (- i)) else digits (nat i))"

record MatchingStepPrimeBasicBlock =
  step_name :: string
  m_min_instructions :: int

text \<open>The constructor: it has no check and no failing path.\<close>

definition new_MatchingStepPrimeBasicBlock :: "int \<Rightarrow> MatchingStepPrimeBasicBlock" where
  "new_MatchingStepPrimeBasicBlock min_instructions =
     \<lparr>step_name = ''basicBlock: prime matching ('' @ StrCat_int min_instructions
                    @ '' instructions minimum)'',
      m_min_instructions = min_instructions\<rparr>"

text \<open>The private member that builds the index of one side; \<open>this\<close> is the step.\<close>

definition GetUnmatchedBasicBlocksByPrime ::
  "MatchingStepPrimeBasicBlock \<Rightarrow> FlowGraph \<Rightarrow> VertexSet \<Rightarrow> VertexIntMap \<Rightarrow> VertexIntMap" where
  "GetUnmatchedBasicBlocksByPrime this flow_graph vertices basic_blocks_map =
     fold (\<lambda>vertex m.
             if GetFixedPoint flow_graph vertex = None
                \<and> GetInstructionCount flow_graph vertex \<ge> m_min_instructions this
             then emplace (GetPrime flow_graph vertex) vertex m
             else m)
          vertices (clear basic_blocks_map)"

text \<open>
  Modelled from the spec: accepting a pair, which is missing from the sources. The pair
  is written into the Fixed Point with its provenance, and both flow graphs record the
  match for their vertex.
\<close>

definition AddFixedPoint ::
  "string \<Rightarrow> Vertex \<Rightarrow> Vertex \<Rightarrow> FlowGraph \<times> FlowGraph \<times> FixedPoint
     \<Rightarrow> FlowGraph \<times> FlowGraph \<times> FixedPoint" where
  "AddFixedPoint name v1 v2 r =
     (case r of (primary, secondary, fp) \<Rightarrow>
        let bb = \<lparr>primary_vertex = v1, secondary_vertex = v2, matching_step = name\<rparr>
        in (primary\<lparr>fixed_point := (fixed_point primary)(v1 := Some bb)\<rparr>,
            secondary\<lparr>fixed_point := (fixed_point secondary)(v2 := Some bb)\<rparr>,
            fp @ [bb]))"

text \<open>
  Modelled from the spec: the body of the loop of \<^verbatim>\<open>FindFixedPointsBasicBlockInternal\<close>
  for one entry of the primary index.
\<close>

definition pair_up ::
  "string \<Rightarrow> VertexIntMap \<Rightarrow> VertexIntMap \<Rightarrow> nat \<times> Vertex
     \<Rightarrow> bool \<times> FlowGraph \<times> FlowGraph \<times> FixedPoint \<Rightarrow> bool \<times> FlowGraph \<times> FlowGraph \<times> FixedPoint" where
  "pair_up name vertex_map_1 vertex_map_2 e acc =
     (if count_key (fst e) vertex_map_1 = 1 \<and> count_key (fst e) vertex_map_2 = 1 then
        (case map_of vertex_map_2 (fst e) of
           Some v2 \<Rightarrow> (True, AddFixedPoint name (snd e) v2 (snd acc))
         | None \<Rightarrow> acc)
      else acc)"

text \<open>
  Modelled from the spec: \<^verbatim>\<open>FindFixedPointsBasicBlockInternal\<close>, which is missing from
  the sources. For every fingerprint that appears in both indexes and identifies exactly
  one vertex in each, the pair is accepted; a fingerprint with several vertices on either
  side is skipped. The result says whether at least one pair was accepted. The Matching
  Context only receives statistics, and the specification gives the step no use of the
  catalogue it is handed: both are left out.
\<close>

definition FindFixedPointsBasicBlockInternal ::
  "string \<Rightarrow> FlowGraph \<Rightarrow> FlowGraph \<Rightarrow> VertexIntMap \<Rightarrow> VertexIntMap \<Rightarrow> FixedPoint
     \<Rightarrow> bool \<times> FlowGraph \<times> FlowGraph \<times> FixedPoint" where
  "FindFixedPointsBasicBlockInternal name primary secondary vertex_map_1 vertex_map_2 fp =
     fold (pair_up name vertex_map_1 vertex_map_2) vertex_map_1 (False, primary, secondary, fp)"

text \<open>The override of \<^verbatim>\<open>FindFixedPoints\<close>: both indexes are fresh local variables.\<close>

definition FindFixedPoints ::
  "MatchingStepPrimeBasicBlock \<Rightarrow> FlowGraph \<Rightarrow> FlowGraph \<Rightarrow> VertexSet \<Rightarrow> VertexSet \<Rightarrow> FixedPoint
     \<Rightarrow> bool \<times> FlowGraph \<times> FlowGraph \<times> FixedPoint" where
  "FindFixedPoints this primary secondary vertices1 vertices2 fp =
     (let vertex_map_1 = GetUnmatchedBasicBlocksByPrime this primary vertices1 [];
          vertex_map_2 = GetUnmatchedBasicBlocksByPrime this secondary vertices2 []
      in FindFixedPointsBasicBlockInternal (step_name this) primary secondary
           vertex_map_1 vertex_map_2 fp)"

text \<open>
  The vertices of a set that the step indexes (unmatched, and with enough instructions),
  those among them with a given fingerprint, and the pairs a call added to the Fixed Point.
\<close>

definition eligible :: "MatchingStepPrimeBasicBlock \<Rightarrow> FlowGraph \<Rightarrow> Vertex \<Rightarrow> bool" where
  "eligible this flow_graph v \<longleftrightarrow>
     GetFixedPoint flow_graph v = None
     \<and> m_min_instructions this \<le> GetInstructionCount flow_graph v"

definition eligible_with ::
  "MatchingStepPrimeBasicBlock \<Rightarrow> FlowGraph \<Rightarrow> VertexSet \<Rightarrow> nat \<Rightarrow> Vertex list" where
  "eligible_with this flow_graph vs k =
     filter (\<lambda>v. eligible this flow_graph v \<and> GetPrime flow_graph v = k) vs"

definition new_pairs :: "FixedPoint \<Rightarrow> FixedPoint \<Rightarrow> FixedPoint" where
  "new_pairs before after = drop (length before) after"

text \<open>
  The pairs that \<^verbatim>\<open>FindFixedPointsBasicBlockInternal\<close> accepts while it walks over the
  entries \<open>xs\<close> of the primary index.
\<close>

definition unique_pairs :: "VertexIntMap \<Rightarrow> VertexIntMap \<Rightarrow> VertexIntMap \<Rightarrow> (Vertex \<times> Vertex) list" where
  "unique_pairs m1 m2 xs =
     concat (map (\<lambda>e. if count_key (fst e) m1 = 1 \<and> count_key (fst e) m2 = 1
                       then (case map_of m2 (fst e) of Some v2 \<Rightarrow> [(snd e, v2)] | None \<Rightarrow> [])
                       else []) xs)"

definition make_pair :: "string \<Rightarrow> Vertex \<times> Vertex \<Rightarrow> BasicBlockFixedPoint" where
  "make_pair name vv = \<lparr>primary_vertex = fst vv, secondary_vertex = snd vv, matching_step = name\<rparr>"

subsection \<open>The prime-product fingerprint\<close>

text \<open>
  Modelled from the spec: the computation behind \<^verbatim>\<open>FlowGraph::GetPrime\<close>, which is
  missing from the sources. Each instruction is mapped to a fixed prime number keyed by
  its instruction class, and the fingerprint of a block is the product of the primes of its
  instructions. The table of primes is a parameter: distinct classes have distinct primes.
\<close>

definition is_prime :: "nat \<Rightarrow> bool" where
  "is_prime n \<longleftrightarrow> 1 < n \<and> (\<forall>d \<in> {2..<n}. \<not> d dvd n)"

definition prime_table :: "('c \<Rightarrow> nat) \<Rightarrow> bool" where
  "prime_table prime_of \<longleftrightarrow> inj prime_of \<and> (\<forall>c. is_prime (prime_of c))"

definition prime_product :: "('c \<Rightarrow> nat) \<Rightarrow> 'c list \<Rightarrow> nat" where
  "prime_product prime_of instructions = prod_list (map prime_of instructions)"

text \<open>The classes and primes of the specification's example scenarios.\<close>

datatype mnemonic = Mov | Add | Cmp | Ret

fun example_prime :: "mnemonic \<Rightarrow> nat" where
  "example_prime Mov = 2"
| "example_prime Add = 3"
| "example_prime Cmp = 5"
| "example_prime Ret = 7"

text \<open>A flow graph without matches, from the instruction classes of its basic blocks.\<close>

definition flow_graph_of :: "mnemonic list list \<Rightarrow> FlowGraph" where
  "flow_graph_of blocks =
     \<lparr>vertex_list = [0..<length blocks],
      instruction_count = (\<lambda>v. if v < length blocks then int (length (blocks ! v)) else 0),
      prime = (\<lambda>v. if v < length blocks then prime_product example_prime (blocks ! v) else 1),
      fixed_point = (\<lambda>v. None)\<rparr>"

text \<open>
  The flow graphs of the specification's two example scenarios: primary blocks
  \<open>[mov, add, ret]\<close> and \<open>[mov, mov]\<close> against secondary blocks \<open>[add, mov, ret]\<close> and
  \<open>[mov]\<close>; and two primary blocks with fingerprint 30 against one secondary block with
  fingerprint 30.
\<close>

definition scenario1_primary :: FlowGraph where
  "scenario1_primary = flow_graph_of [[Mov, Add, Ret], [Mov, Mov]]"

definition scenario1_secondary :: FlowGraph where
  "scenario1_secondary = flow_graph_of [[Add, Mov, Ret], [Mov]]"

definition scenario2_primary :: FlowGraph where
  "scenario2_primary = flow_graph_of [[Mov, Add, Cmp], [Cmp, Add, Mov]]"

definition scenario2_secondary :: FlowGraph where
  "scenario2_secondary = flow_graph_of [[Add, Mov, Cmp]]"

subsection \<open>The matching pipeline driver\<close>

text \<open>
  Modelled from the spec: the Matching Pipeline Driver and the strategy interface of a
  Matching Step, which are missing from the sources. A step is given the two flow graphs,
  the two unmatched vertex sets and the Fixed Point, and returns whether it accepted a
  pair, with the updated graphs and Fixed Point. After each step the driver removes the
  matched vertices from both unmatched sets. It runs the ordered catalogue pass after pass
  until a pass in which every step reports no new match.
\<close>

type_synonym MatchingStep =
  "FlowGraph \<Rightarrow> FlowGraph \<Rightarrow> VertexSet \<Rightarrow> VertexSet \<Rightarrow> FixedPoint
     \<Rightarrow> bool \<times> FlowGraph \<times> FlowGraph \<times> FixedPoint"

text \<open>
  Modelled from the spec: the state of a run for one function pair: the two flow graphs,
  the unmatched vertex set of each, and the Fixed Point accepted so far. A run starts with
  an empty Fixed Point and every vertex unmatched.
\<close>

record run_state =
  primary_graph :: FlowGraph
  secondary_graph :: FlowGraph
  unmatched1 :: VertexSet
  unmatched2 :: VertexSet
  accepted :: FixedPoint

definition initial_state :: "FlowGraph \<Rightarrow> FlowGraph \<Rightarrow> run_state" where
  "initial_state p s =
     \<lparr>primary_graph = p, secondary_graph = s, unmatched1 = vertex_list p, unmatched2 = vertex_list s,
      accepted = []\<rparr>"

text \<open>
  Modelled from the spec: the driver invokes one step on the unmatched sets and afterwards
  removes from both sets the vertices that the Fixed Point has an entry for.
\<close>

definition invoke :: "MatchingStep \<Rightarrow> run_state \<Rightarrow> bool \<times> run_state" where
  "invoke step st =
     (case step (primary_graph st) (secondary_graph st) (unmatched1 st) (unmatched2 st) (accepted st) of
        (matched, p, s, fp) \<Rightarrow>
          (matched,
           \<lparr>primary_graph = p, secondary_graph = s,
            unmatched1 = filter (\<lambda>v. v \<notin> set (map primary_vertex fp)) (unmatched1 st),
            unmatched2 = filter (\<lambda>v. v \<notin> set (map secondary_vertex fp)) (unmatched2 st),
            accepted = fp\<rparr>))"

text \<open>
  Modelled from the spec: one pass of the driver over the catalogue. It yields the report
  of every step, in order, and the state.
\<close>

fun run_pass :: "MatchingStep list \<Rightarrow> run_state \<Rightarrow> bool list \<times> run_state" where
  "run_pass [] st = ([], st)"
| "run_pass (step # steps) st =
     (case invoke step st of
        (matched, st') \<Rightarrow>
          (case run_pass steps st' of (reports, st'') \<Rightarrow> (matched # reports, st'')))"

text \<open>
  Modelled from the spec: the driver loop, with a bound on the number of passes it may
  make: \<open>None\<close> when the bound is used up before a pass without a new match. The result
  holds the reports of all passes made, the last of which is the pass that ended the run.
\<close>

fun driver :: "nat \<Rightarrow> MatchingStep list \<Rightarrow> run_state \<Rightarrow> (bool list list \<times> run_state) option" where
  "driver 0 steps st = None"
| "driver (Suc fuel) steps st =
     (case run_pass steps st of
        (reports, st') \<Rightarrow>
          if True \<in> set reports then
            (case driver fuel steps st' of
               None \<Rightarrow> None
             | Some (log, st'') \<Rightarrow> Some (reports # log, st''))
          else Some ([reports], st'))"

text \<open>The states a run can pass through: the driver's state after any number of steps.\<close>

inductive reachable :: "MatchingStep list \<Rightarrow> run_state \<Rightarrow> run_state \<Rightarrow> bool"
  for steps :: "MatchingStep list" and st0 :: run_state where
  start: "reachable steps st0 st0"
| after_step: "reachable steps st0 st \<Longrightarrow> step \<in> set steps \<Longrightarrow> reachable steps st0 (snd (invoke step st))"

text \<open>
  The contract of a Matching Step, as far as the driver's termination depends on it: a
  step reports a new match only if it accepted a pair of a vertex of each unmatched set it
  was given.
\<close>

definition honest_report :: "MatchingStep \<Rightarrow> bool" where
  "honest_report step \<longleftrightarrow>
     (\<forall>p s V1 V2 fp. fst (step p s V1 V2 fp) \<longrightarrow>
        (\<exists>bb \<in> set (snd (snd (snd (step p s V1 V2 fp)))).
           primary_vertex bb \<in> set V1 \<and> secondary_vertex bb \<in> set V2))"

text \<open>
  The invariant of a run: the Fixed Point is injective in both directions, and a vertex of
  a flow graph is in that graph's unmatched set exactly when the Fixed Point has no entry
  for it.
\<close>

definition run_invariant :: "run_state \<Rightarrow> bool" where
  "run_invariant st \<longleftrightarrow>
     distinct (map primary_vertex (accepted st))
     \<and> distinct (map secondary_vertex (accepted st))
     \<and> (\<forall>v. v \<in> set (unmatched1 st) \<longleftrightarrow>
              v \<in> set (vertex_list (primary_graph st)) \<and> v \<notin> set (map primary_vertex (accepted st)))
     \<and> (\<forall>v. v \<in> set (unmatched2 st) \<longleftrightarrow>
              v \<in> set (vertex_list (secondary_graph st)) \<and> v \<notin> set (map secondary_vertex (accepted st)))"

section \<open>Properties of the persistence adapter\<close>

text \<open>
  Claim C10. \<open>Connect\<close> is atomic with respect to the connection state. If a database is
  already open it raises "database already open" and changes neither the object nor the
  library. If the object is disconnected and opening fails (a return code other than
  \<open>SQLITE_OK\<close>, or no handle), it raises and leaves the handle null; a handle that a failed
  \<^verbatim>\<open>sqlite3_open\<close> handed out is closed before the error leaves. Otherwise the object
  holds the handle that the library returned.
\<close>

theorem Connect_atomic:
  "(m_database db \<noteq> None \<longrightarrow>
      Connect lib f db w = (Inl (runtime_error ''database already open''), db, w))
 \<and> (m_database db = None \<and>
      (fst (sqlite3_open lib w f) \<noteq> SQLITE_OK \<or> snd (sqlite3_open lib w f) = None) \<longrightarrow>
      isl (fst (Connect lib f db w)) \<and> m_database (fst (snd (Connect lib f db w))) = None)
 \<and> (m_database db = None \<and> fst (sqlite3_open lib w f) \<noteq> SQLITE_OK \<longrightarrow>
      snd (snd (Connect lib f db w)) =
        w @ [Call_open f, Call_errmsg (snd (sqlite3_open lib w f)),
             Call_close (snd (sqlite3_open lib w f))])
 \<and> (m_database db = None \<and> sqlite3_open lib w f = (SQLITE_OK, Some h) \<longrightarrow>
      Connect lib f db w = (Inr (), db\<lparr>m_database := Some h\<rparr>, w @ [Call_open f]))"
  by (simp add: Connect_def Let_def split: prod.splits)

theorem Connect_atomic_witness:
  "Connect scripted ''b.db'' \<lparr>m_database = Some 3\<rparr> [Call_open ''a.db'']
     = (Inl (runtime_error ''database already open''), \<lparr>m_database = Some 3\<rparr>, [Call_open ''a.db''])
 \<and> isl (fst (Connect scripted ''missing.db'' \<lparr>m_database = None\<rparr> []))
 \<and> m_database (fst (snd (Connect scripted ''missing.db'' \<lparr>m_database = None\<rparr> []))) = None
 \<and> snd (snd (Connect scripted ''missing.db'' \<lparr>m_database = None\<rparr> []))
     = [Call_open ''missing.db'', Call_errmsg (Some 7), Call_close (Some 7)]
 \<and> isl (fst (Connect scripted ''nomem.db'' \<lparr>m_database = None\<rparr> []))
 \<and> m_database (fst (snd (Connect scripted ''nomem.db'' \<lparr>m_database = None\<rparr> []))) = None
 \<and> Connect scripted ''a.db'' \<lparr>m_database = None\<rparr> []
     = (Inr (), \<lparr>m_database = Some 3\<rparr>, [Call_open ''a.db''])"
  using Connect_atomic [where db = "\<lparr>m_database = Some 3\<rparr>" and lib = scripted and f = "''b.db''"
                          and w = "[Call_open ''a.db'']"]
        Connect_atomic [where db = "\<lparr>m_database = None\<rparr>" and lib = scripted and f = "''missing.db''"
                          and w = "[]"]
        Connect_atomic [where db = "\<lparr>m_database = None\<rparr>" and lib = scripted and f = "''nomem.db''"
                          and w = "[]"]
        Connect_atomic [where db = "\<lparr>m_database = None\<rparr>" and lib = scripted and f = "''a.db''"
                          and w = "[]" and h = 3]
  by (simp add: scripted_def SQLITE_OK_def)

text \<open>
  Claim C8. The three operations that can fail raise exactly on a data-access failure.
  \<open>Connect\<close> raises exactly when a database is already open or the store cannot be opened
  (\<^verbatim>\<open>sqlite3_open\<close> answers something other than \<open>SQLITE_OK\<close>, or hands out no handle);
  constructing a statement raises exactly when \<^verbatim>\<open>sqlite3_prepare_v2\<close> does not answer
  \<open>SQLITE_OK\<close>; \<open>Execute\<close> raises exactly when \<^verbatim>\<open>sqlite3_step\<close> answers neither
  \<open>SQLITE_ROW\<close> nor \<open>SQLITE_DONE\<close>. Nothing is retried: each operation asks the library
  to open, prepare or step once (\<open>Connect\<close> on an open database not at all).
\<close>

theorem data_access_errors:
  "(isl (fst (Connect lib f db w)) \<longleftrightarrow>
      m_database db \<noteq> None \<or> fst (sqlite3_open lib w f) \<noteq> SQLITE_OK
        \<or> snd (sqlite3_open lib w f) = None)
 \<and> filter is_open (snd (snd (Connect lib f db w))) =
      filter is_open w @ (if m_database db = None then [Call_open f] else [])
 \<and> (isl (fst (Statement lib d s w)) \<longleftrightarrow>
      fst (sqlite3_prepare_v2 lib w (m_database d) s (length s)) \<noteq> SQLITE_OK)
 \<and> filter is_prepare (snd (Statement lib d s w)) =
      filter is_prepare w @ [Call_prepare_v2 (m_database d) s (length s)]
 \<and> (isl (fst (Execute lib st w)) \<longleftrightarrow>
      sqlite3_step lib w (m_statement st) \<noteq> SQLITE_ROW
        \<and> sqlite3_step lib w (m_statement st) \<noteq> SQLITE_DONE)
 \<and> filter is_step (snd (snd (Execute lib st w))) =
      filter is_step w @ [Call_step (m_statement st)]"
  by (simp add: Connect_def Statement_def Execute_def Let_def split: prod.splits)

theorem data_access_errors_witness:
  "isl (fst (Connect scripted ''missing.db'' \<lparr>m_database = None\<rparr> []))
 \<and> \<not> isl (fst (Connect scripted ''a.db'' \<lparr>m_database = None\<rparr> []))
 \<and> filter is_open (snd (snd (Connect scripted ''missing.db'' \<lparr>m_database = None\<rparr> [])))
      = [Call_open ''missing.db'']
 \<and> isl (fst (Statement scripted \<lparr>m_database = Some 3\<rparr> ''bogus'' []))
 \<and> \<not> isl (fst (Statement scripted \<lparr>m_database = Some 3\<rparr> ''select 1'' []))
 \<and> filter is_prepare (snd (Statement scripted \<lparr>m_database = Some 3\<rparr> ''bogus'' []))
      = [Call_prepare_v2 (Some 3) ''bogus'' 5]
 \<and> isl (fst (Execute scripted \<lparr>m_stmt_database = Some 3, m_statement = Some 13,
                 m_parameter = 0, m_column = 0, m_got_data = False\<rparr> []))
 \<and> \<not> isl (fst (Execute scripted \<lparr>m_stmt_database = Some 3, m_statement = Some 11,
                 m_parameter = 0, m_column = 0, m_got_data = False\<rparr> []))
 \<and> filter is_step (snd (snd (Execute scripted \<lparr>m_stmt_database = Some 3, m_statement = Some 13,
                 m_parameter = 0, m_column = 0, m_got_data = False\<rparr> [])))
      = [Call_step (Some 13)]"
  using data_access_errors [where lib = scripted and w = "[]" and f = "''missing.db''"
          and db = "\<lparr>m_database = None\<rparr>" and d = "\<lparr>m_database = Some 3\<rparr>" and s = "''bogus''"
          and st = "\<lparr>m_stmt_database = Some 3, m_statement = Some 13,
                     m_parameter = 0, m_column = 0, m_got_data = False\<rparr>"]
        data_access_errors [where lib = scripted and w = "[]" and f = "''a.db''"
          and db = "\<lparr>m_database = None\<rparr>" and d = "\<lparr>m_database = Some 3\<rparr>" and s = "''select 1''"
          and st = "\<lparr>m_stmt_database = Some 3, m_statement = Some 11,
                     m_parameter = 0, m_column = 0, m_got_data = False\<rparr>"]
  by (simp add: scripted_def SQLITE_OK_def SQLITE_ROW_def SQLITE_DONE_def)

text \<open>What a chain of binds and a chain of extractions do to the counters and to the library.\<close>

lemma Bind_eq:
  "Bind a st w = (st\<lparr>m_parameter := m_parameter st + 1\<rparr>,
                  w @ [bind_call (m_statement st) (m_parameter st + 1) a])"
  by (cases a) (simp_all add: BindInt_def BindInt64_def BindDouble_def BindText_def BindNull_def)

lemma Binds_eq:
  "Binds args st w =
     (st\<lparr>m_parameter := m_parameter st + int (length args)\<rparr>,
      w @ map (\<lambda>(i, a). bind_call (m_statement st) (m_parameter st + 1 + int i) a)
            (enumerate 0 args))"
proof (induction args arbitrary: st w)
  case Nil
  show ?case by simp
next
  case (Cons a args)
  have shift: "enumerate (Suc 0) args = map (\<lambda>(i, a). (Suc i, a)) (enumerate 0 args)"
    by (auto simp: enumerate_Suc_eq apfst_def map_prod_def)
  show ?case
    by (simp add: Bind_eq Cons.IH shift case_prod_unfold add.assoc o_def)
qed

lemma Into_full:
  "Into lib t st w =
     (extracted lib w (m_statement st) (m_column st) t,
      st\<lparr>m_column := m_column st + 1\<rparr>,
      w @ column_calls (m_statement st) (m_column st) t)"
proof (cases t)
  case (Pair tg n)
  then show ?thesis
    by (cases tg)
       (simp_all add: Into_int_def Into_int64_def Into_Address_def Into_double_def
          Into_string_def read_is_null_def column_calls_def extracted_def Let_def
          split: prod.splits)
qed

lemma Intos_full:
  "Intos lib ts st w =
     (extracted_chain lib w (m_statement st) (m_column st) ts,
      st\<lparr>m_column := m_column st + int (length ts)\<rparr>,
      w @ concat (map (\<lambda>(i, t). column_calls (m_statement st) (m_column st + int i) t)
                    (enumerate 0 ts)))"
proof (induction ts arbitrary: st w)
  case Nil
  show ?case by simp
next
  case (Cons t ts)
  have shift: "enumerate (Suc 0) ts = map (\<lambda>(i, a). (Suc i, a)) (enumerate 0 ts)"
    by (auto simp: enumerate_Suc_eq apfst_def map_prod_def)
  show ?case
    by (simp add: Into_full Cons.IH shift case_prod_unfold add.assoc o_def)
qed

text \<open>
  Claim C9. The \<open>k\<close>-th bind of a chain (counting from zero) binds positional parameter
  \<open>m_parameter + 1 + k\<close>, whichever of the five members it is. The \<open>k\<close>-th extraction
  reads column \<open>m_column + k\<close>, whichever overload it is, and hands its caller what the
  library answers for that column: the value, and the null flag when asked for. A
  successful \<open>Execute\<close> sets both counters to zero, whatever they were: the binds that
  follow go to parameters 1, 2, ... and the extractions that follow read columns 0, 1, ...
\<close>

theorem bind_into_cursors:
  "Binds args st w =
     (st\<lparr>m_parameter := m_parameter st + int (length args)\<rparr>,
      w @ map (\<lambda>(i, a). bind_call (m_statement st) (m_parameter st + 1 + int i) a)
            (enumerate 0 args))
 \<and> Intos lib ts st w =
     (extracted_chain lib w (m_statement st) (m_column st) ts,
      st\<lparr>m_column := m_column st + int (length ts)\<rparr>,
      w @ concat (map (\<lambda>(i, t). column_calls (m_statement st) (m_column st + int i) t)
                    (enumerate 0 ts)))
 \<and> (Execute lib st w = (Inr u, st', w') \<longrightarrow>
      m_parameter st' = 0 \<and> m_column st' = 0
    \<and> snd (Binds args st' w') =
        w' @ map (\<lambda>(i, a). bind_call (m_statement st) (1 + int i) a) (enumerate 0 args)
    \<and> fst (Intos lib ts st' w') = extracted_chain lib w' (m_statement st) 0 ts
    \<and> snd (snd (Intos lib ts st' w')) =
        w' @ concat (map (\<lambda>(i, t). column_calls (m_statement st) (int i) t) (enumerate 0 ts)))"
proof (intro conjI impI)
  show "Binds args st w =
     (st\<lparr>m_parameter := m_parameter st + int (length args)\<rparr>,
      w @ map (\<lambda>(i, a). bind_call (m_statement st) (m_parameter st + 1 + int i) a)
            (enumerate 0 args))"
    by (rule Binds_eq)
  show "Intos lib ts st w =
     (extracted_chain lib w (m_statement st) (m_column st) ts,
      st\<lparr>m_column := m_column st + int (length ts)\<rparr>,
      w @ concat (map (\<lambda>(i, t). column_calls (m_statement st) (m_column st + int i) t)
                    (enumerate 0 ts)))"
    by (rule Intos_full)
next
  assume "Execute lib st w = (Inr u, st', w')"
  then have ex: "m_parameter st' = 0" "m_column st' = 0" "m_statement st' = m_statement st"
    by (auto simp: Execute_def Let_def split: if_splits)
  show "m_parameter st' = 0" "m_column st' = 0"
    by (fact ex)+
  show "snd (Binds args st' w') =
        w' @ map (\<lambda>(i, a). bind_call (m_statement st) (1 + int i) a) (enumerate 0 args)"
    by (simp add: Binds_eq ex)
  show "fst (Intos lib ts st' w') = extracted_chain lib w' (m_statement st) 0 ts"
    by (simp add: Intos_full ex)
  show "snd (snd (Intos lib ts st' w')) =
        w' @ concat (map (\<lambda>(i, t). column_calls (m_statement st) (int i) t) (enumerate 0 ts))"
    by (simp add: Intos_full ex)
qed

theorem bind_into_cursors_witness:
  "Execute scripted \<lparr>m_stmt_database = Some 3, m_statement = Some 11,
                     m_parameter = 5, m_column = 3, m_got_data = False\<rparr> []
     = (Inr (), \<lparr>m_stmt_database = Some 3, m_statement = Some 11,
                  m_parameter = 0, m_column = 0, m_got_data = True\<rparr>, [Call_step (Some 11)])
 \<and> snd (Binds [Bind_int 42, Bind_text ''x'', Bind_null]
           \<lparr>m_stmt_database = Some 3, m_statement = Some 11,
            m_parameter = 0, m_column = 0, m_got_data = True\<rparr> [Call_step (Some 11)])
     = [Call_step (Some 11), Call_bind_int (Some 11) 1 42, Call_bind_text (Some 11) 2 ''x'' 1,
        Call_bind_null (Some 11) 3]
 \<and> Intos scripted [(Target_int, True), (Target_string ''old'', True), (Target_int64, False),
                    (Target_string ''old'', False)]
           \<lparr>m_stmt_database = Some 3, m_statement = Some 11,
            m_parameter = 0, m_column = 0, m_got_data = True\<rparr> [Call_step (Some 11)]
     = ([(Value_int 40, Some False), (Value_string ''old'', Some True), (Value_int64 4002, None),
         (Value_string ''text'', None)],
        \<lparr>m_stmt_database = Some 3, m_statement = Some 11,
         m_parameter = 0, m_column = 4, m_got_data = True\<rparr>,
        [Call_step (Some 11), Call_column_type (Some 11) 0, Call_column_int (Some 11) 0,
         Call_column_type (Some 11) 1, Call_column_text (Some 11) 1,
         Call_column_int64 (Some 11) 2, Call_column_text (Some 11) 3])"
proof -
  have run: "Execute scripted \<lparr>m_stmt_database = Some 3, m_statement = Some 11,
                     m_parameter = 5, m_column = 3, m_got_data = False\<rparr> []
     = (Inr (), \<lparr>m_stmt_database = Some 3, m_statement = Some 11,
                  m_parameter = 0, m_column = 0, m_got_data = True\<rparr>, [Call_step (Some 11)])"
    by (simp add: Execute_def scripted_def SQLITE_ROW_def SQLITE_DONE_def)
  have three: "enumerate 0 [a, b, c] = [(0, a), (1, b), (2, c)]"
    and four: "enumerate 0 [a, b, c, d] = [(0, a), (1, b), (2, c), (3, d)]" for a b c d :: 'a
    by (simp_all add: enumerate_eq_zip upt_rec)
  have answers: "extracted_chain scripted [Call_step (Some 11)] (Some 11) 0
       [(Target_int, True), (Target_string ''old'', True), (Target_int64, False),
        (Target_string ''old'', False)]
     = [(Value_int 40, Some False), (Value_string ''old'', Some True), (Value_int64 4002, None),
        (Value_string ''text'', None)]"
    by (simp add: extracted_def column_calls_def scripted_def SQLITE_NULL_def)
  show ?thesis
    using run answers
      bind_into_cursors [where lib = scripted and w = "[]" and u = "()"
        and st = "\<lparr>m_stmt_database = Some 3, m_statement = Some 11,
                   m_parameter = 5, m_column = 3, m_got_data = False\<rparr>"
        and st' = "\<lparr>m_stmt_database = Some 3, m_statement = Some 11,
                    m_parameter = 0, m_column = 0, m_got_data = True\<rparr>"
        and w' = "[Call_step (Some 11)]"
        and args = "[Bind_int 42, Bind_text ''x'', Bind_null]"
        and ts = "[(Target_int, True), (Target_string ''old'', True), (Target_int64, False),
                   (Target_string ''old'', False)]"]
      bind_into_cursors [where lib = scripted and w = "[Call_step (Some 11)]"
        and st = "\<lparr>m_stmt_database = Some 3, m_statement = Some 11,
                    m_parameter = 0, m_column = 0, m_got_data = True\<rparr>"
        and ts = "[(Target_int, True), (Target_string ''old'', True), (Target_int64, False),
                   (Target_string ''old'', False)]"]
    by (simp add: three four column_calls_def)
qed

section \<open>Properties of the instruction-prime matching step\<close>

subsection \<open>The feature index\<close>

lemma set_emplace: "set (emplace k v m) = insert (k, v) (set m)"
  by (induction m) auto

lemma count_key_emplace:
  "count_key k (emplace k' v m) = count_key k m + (if k' = k then 1 else 0)"
  by (induction m) (auto simp: count_key_def)

lemma set_index_fold:
  "set (fold (\<lambda>vertex m. if C vertex then emplace (K vertex) vertex m else m) vs acc)
     = set acc \<union> {(K v, v) | v. v \<in> set vs \<and> C v}"
  by (induction vs arbitrary: acc) (auto simp: set_emplace)

lemma count_key_index_fold:
  "count_key k (fold (\<lambda>vertex m. if C vertex then emplace (K vertex) vertex m else m) vs acc)
     = count_key k acc + length (filter (\<lambda>v. C v \<and> K v = k) vs)"
  by (induction vs arbitrary: acc) (auto simp: count_key_emplace)

lemma set_GetUnmatchedBasicBlocksByPrime:
  "set (GetUnmatchedBasicBlocksByPrime this fg vs m)
     = {(GetPrime fg v, v) | v. v \<in> set vs \<and> eligible this fg v}"
  unfolding GetUnmatchedBasicBlocksByPrime_def eligible_def clear_def
  by (simp add: set_index_fold)

lemma count_key_GetUnmatchedBasicBlocksByPrime:
  "count_key k (GetUnmatchedBasicBlocksByPrime this fg vs m) = length (eligible_with this fg vs k)"
  unfolding GetUnmatchedBasicBlocksByPrime_def eligible_def eligible_with_def clear_def
  by (simp add: count_key_index_fold) (simp add: count_key_def)

lemma fold_pair_up_found:
  "fst (fold (pair_up name m1 m2) xs acc) \<longleftrightarrow> fst acc \<or> unique_pairs m1 m2 xs \<noteq> []"
  by (induction xs arbitrary: acc)
     (auto simp: pair_up_def unique_pairs_def split: option.splits)

lemma fold_pair_up_fixed_point:
  "snd (snd (snd (fold (pair_up name m1 m2) xs acc)))
     = snd (snd (snd acc)) @ map (make_pair name) (unique_pairs m1 m2 xs)"
proof (induction xs arbitrary: acc)
  case Nil
  show ?case by (simp add: unique_pairs_def)
next
  case (Cons e xs)
  obtain b p s fp where acc: "acc = (b, p, s, fp)"
    by (cases acc) auto
  show ?case
    by (simp add: Cons.IH)
       (simp add: acc pair_up_def unique_pairs_def AddFixedPoint_def make_pair_def Let_def
          split: option.splits)
qed

lemma unique_pairs_D:
  assumes "(v1, v2) \<in> set (unique_pairs m1 m2 xs)"
  shows "\<exists>k. (k, v1) \<in> set xs \<and> count_key k m1 = 1 \<and> count_key k m2 = 1 \<and> (k, v2) \<in> set m2"
proof -
  from assms obtain k where "(k, v1) \<in> set xs" "count_key k m1 = 1" "count_key k m2 = 1"
    "map_of m2 k = Some v2"
    by (auto simp: unique_pairs_def split: if_splits option.splits)
  then show ?thesis
    by (blast dest: map_of_SomeD)
qed

lemma FindFixedPoints_new_pairs:
  "new_pairs fp (snd (snd (snd (FindFixedPoints this p s V1 V2 fp))))
     = map (make_pair (step_name this))
         (unique_pairs (GetUnmatchedBasicBlocksByPrime this p V1 [])
                       (GetUnmatchedBasicBlocksByPrime this s V2 [])
                       (GetUnmatchedBasicBlocksByPrime this p V1 []))"
  by (simp add: FindFixedPoints_def FindFixedPointsBasicBlockInternal_def
        fold_pair_up_fixed_point new_pairs_def Let_def)

lemma new_pair_D:
  assumes "bb \<in> set (new_pairs fp (snd (snd (snd (FindFixedPoints this p s V1 V2 fp)))))"
  shows "\<exists>k. k = GetPrime p (primary_vertex bb) \<and> k = GetPrime s (secondary_vertex bb)
           \<and> primary_vertex bb \<in> set V1 \<and> eligible this p (primary_vertex bb)
           \<and> secondary_vertex bb \<in> set V2 \<and> eligible this s (secondary_vertex bb)
           \<and> length (eligible_with this p V1 k) = 1
           \<and> length (eligible_with this s V2 k) = 1"
proof -
  from assms obtain v1 v2 where bb: "bb = make_pair (step_name this) (v1, v2)"
    and in_pairs: "(v1, v2) \<in> set (unique_pairs (GetUnmatchedBasicBlocksByPrime this p V1 [])
                       (GetUnmatchedBasicBlocksByPrime this s V2 [])
                       (GetUnmatchedBasicBlocksByPrime this p V1 []))"
    by (auto simp: FindFixedPoints_new_pairs)
  from unique_pairs_D [OF in_pairs] obtain k where
    k1: "(k, v1) \<in> set (GetUnmatchedBasicBlocksByPrime this p V1 [])"
    and c1: "count_key k (GetUnmatchedBasicBlocksByPrime this p V1 []) = 1"
    and c2: "count_key k (GetUnmatchedBasicBlocksByPrime this s V2 []) = 1"
    and k2: "(k, v2) \<in> set (GetUnmatchedBasicBlocksByPrime this s V2 [])"
    by blast
  from k1 have "k = GetPrime p v1" "v1 \<in> set V1" "eligible this p v1"
    by (auto simp: set_GetUnmatchedBasicBlocksByPrime)
  moreover from k2 have "k = GetPrime s v2" "v2 \<in> set V2" "eligible this s v2"
    by (auto simp: set_GetUnmatchedBasicBlocksByPrime)
  moreover from c1 have "length (eligible_with this p V1 k) = 1"
    by (simp add: count_key_GetUnmatchedBasicBlocksByPrime)
  moreover from c2 have "length (eligible_with this s V2 k) = 1"
    by (simp add: count_key_GetUnmatchedBasicBlocksByPrime)
  ultimately show ?thesis
    by (simp add: bb make_pair_def)
qed

lemma singleton_filter:
  assumes "length (filter P xs) = 1" and "x \<in> set xs" and "P x"
  shows "filter P xs = [x]"
proof -
  from assms(1) obtain y where y: "filter P xs = [y]"
    by (cases "filter P xs") auto
  from assms(2,3) have "x \<in> set (filter P xs)" by simp
  with y show ?thesis by simp
qed

text \<open>
  Claim C4. The index built by \<open>GetUnmatchedBasicBlocksByPrime\<close> has the entry \<open>(k, v)\<close>
  exactly when \<open>v\<close> is in the given vertex set, has no fixed point, has at least
  \<open>min_instructions\<close> instructions, and \<open>k\<close> is its fingerprint. The index is cleared
  first: what it held before the call has no influence on the result. (\<open>FindFixedPoints\<close>
  builds both indexes in local variables, which do not outlive the call.)
\<close>

theorem index_entries:
  "((k, v) \<in> set (GetUnmatchedBasicBlocksByPrime this fg vs m) \<longleftrightarrow>
      v \<in> set vs \<and> GetFixedPoint fg v = None
      \<and> m_min_instructions this \<le> GetInstructionCount fg v \<and> k = GetPrime fg v)
 \<and> GetUnmatchedBasicBlocksByPrime this fg vs m = GetUnmatchedBasicBlocksByPrime this fg vs []"
proof
  show "(k, v) \<in> set (GetUnmatchedBasicBlocksByPrime this fg vs m) \<longleftrightarrow>
      v \<in> set vs \<and> GetFixedPoint fg v = None
      \<and> m_min_instructions this \<le> GetInstructionCount fg v \<and> k = GetPrime fg v"
    by (auto simp: set_GetUnmatchedBasicBlocksByPrime eligible_def)
  show "GetUnmatchedBasicBlocksByPrime this fg vs m = GetUnmatchedBasicBlocksByPrime this fg vs []"
    by (simp add: GetUnmatchedBasicBlocksByPrime_def clear_def)
qed

theorem index_entries_witness:
  "(42, 0) \<in> set (GetUnmatchedBasicBlocksByPrime (new_MatchingStepPrimeBasicBlock 2)
                    scenario1_secondary [0, 1] [(5, 5)])
 \<and> (2, 1) \<notin> set (GetUnmatchedBasicBlocksByPrime (new_MatchingStepPrimeBasicBlock 2)
                    scenario1_secondary [0, 1] [(5, 5)])
 \<and> GetUnmatchedBasicBlocksByPrime (new_MatchingStepPrimeBasicBlock 2)
      scenario1_secondary [0, 1] [(5, 5)] = [(42, 0)]"
proof -
  have features: "GetFixedPoint scenario1_secondary 0 = None"
    "GetInstructionCount scenario1_secondary 0 = 3" "GetPrime scenario1_secondary 0 = 42"
    "GetInstructionCount scenario1_secondary 1 = 1"
    "m_min_instructions (new_MatchingStepPrimeBasicBlock 2) = 2"
    by (simp_all add: scenario1_secondary_def flow_graph_of_def GetFixedPoint_def
          GetInstructionCount_def GetPrime_def prime_product_def
          new_MatchingStepPrimeBasicBlock_def)
  have fresh: "GetUnmatchedBasicBlocksByPrime (new_MatchingStepPrimeBasicBlock 2)
      scenario1_secondary [0, 1] [] = [(42, 0)]"
    by code_simp
  show ?thesis
    using features fresh
          index_entries [where this = "new_MatchingStepPrimeBasicBlock 2"
            and fg = scenario1_secondary and vs = "[0, 1]" and m = "[(5, 5)]" and k = 42 and v = 0]
          index_entries [where this = "new_MatchingStepPrimeBasicBlock 2"
            and fg = scenario1_secondary and vs = "[0, 1]" and m = "[(5, 5)]" and k = 2 and v = 1]
    by simp
qed

subsection \<open>The pairs a call accepts\<close>

text \<open>
  Claim C3. A vertex whose instruction count is below \<open>min_instructions\<close> is never
  indexed, whatever the vertex set and whatever the index held, and it is in no pair that
  \<open>FindFixedPoints\<close> adds to the Fixed Point, on the primary or the secondary side, whatever
  its fingerprint.
\<close>

theorem below_minimum_never_matched:
  "(GetInstructionCount fg v < m_min_instructions this \<longrightarrow>
      v \<notin> snd ` set (GetUnmatchedBasicBlocksByPrime this fg vs m))
 \<and> (GetInstructionCount p v < m_min_instructions this \<longrightarrow>
      v \<notin> primary_vertex ` set (new_pairs fp (snd (snd (snd (FindFixedPoints this p s V1 V2 fp))))))
 \<and> (GetInstructionCount s v < m_min_instructions this \<longrightarrow>
      v \<notin> secondary_vertex ` set (new_pairs fp (snd (snd (snd (FindFixedPoints this p s V1 V2 fp))))))"
proof (intro conjI impI)
  assume "GetInstructionCount fg v < m_min_instructions this"
  then show "v \<notin> snd ` set (GetUnmatchedBasicBlocksByPrime this fg vs m)"
    by (auto simp: set_GetUnmatchedBasicBlocksByPrime eligible_def)
next
  assume low: "GetInstructionCount p v < m_min_instructions this"
  show "v \<notin> primary_vertex ` set (new_pairs fp (snd (snd (snd (FindFixedPoints this p s V1 V2 fp)))))"
  proof
    assume "v \<in> primary_vertex ` set (new_pairs fp (snd (snd (snd (FindFixedPoints this p s V1 V2 fp)))))"
    then obtain bb where "bb \<in> set (new_pairs fp (snd (snd (snd (FindFixedPoints this p s V1 V2 fp)))))"
      and "v = primary_vertex bb" by auto
    with new_pair_D [of bb fp this p s V1 V2] have "eligible this p v" by auto
    with low show False by (simp add: eligible_def)
  qed
next
  assume low: "GetInstructionCount s v < m_min_instructions this"
  show "v \<notin> secondary_vertex ` set (new_pairs fp (snd (snd (snd (FindFixedPoints this p s V1 V2 fp)))))"
  proof
    assume "v \<in> secondary_vertex ` set (new_pairs fp (snd (snd (snd (FindFixedPoints this p s V1 V2 fp)))))"
    then obtain bb where "bb \<in> set (new_pairs fp (snd (snd (snd (FindFixedPoints this p s V1 V2 fp)))))"
      and "v = secondary_vertex bb" by auto
    with new_pair_D [of bb fp this p s V1 V2] have "eligible this s v" by auto
    with low show False by (simp add: eligible_def)
  qed
qed

theorem below_minimum_never_matched_witness:
  "GetInstructionCount scenario1_primary 1 < m_min_instructions (new_MatchingStepPrimeBasicBlock 3)
 \<and> GetInstructionCount scenario1_secondary 1 < m_min_instructions (new_MatchingStepPrimeBasicBlock 3)
 \<and> 1 \<notin> snd ` set (GetUnmatchedBasicBlocksByPrime (new_MatchingStepPrimeBasicBlock 3)
                      scenario1_secondary [0, 1] [])
 \<and> 1 \<notin> primary_vertex ` set (new_pairs []
          (snd (snd (snd (FindFixedPoints (new_MatchingStepPrimeBasicBlock 3)
             scenario1_primary scenario1_secondary [0, 1] [0, 1] [])))))
 \<and> 1 \<notin> secondary_vertex ` set (new_pairs []
          (snd (snd (snd (FindFixedPoints (new_MatchingStepPrimeBasicBlock 3)
             scenario1_primary scenario1_secondary [0, 1] [0, 1] [])))))"
proof -
  have low: "GetInstructionCount scenario1_primary 1 < m_min_instructions (new_MatchingStepPrimeBasicBlock 3)"
    "GetInstructionCount scenario1_secondary 1 < m_min_instructions (new_MatchingStepPrimeBasicBlock 3)"
    by (simp_all add: scenario1_primary_def scenario1_secondary_def flow_graph_of_def
          GetInstructionCount_def new_MatchingStepPrimeBasicBlock_def)
  show ?thesis
    using low below_minimum_never_matched [where this = "new_MatchingStepPrimeBasicBlock 3"
            and fg = scenario1_secondary and p = scenario1_primary and s = scenario1_secondary
            and v = 1 and vs = "[0, 1]" and m = "[]" and fp = "[]" and ?V1.0 = "[0, 1]"
            and ?V2.0 = "[0, 1]"]
    by simp
qed

text \<open>
  Claim C2. Every pair that an invocation of the step accepts joins two vertices with the
  same fingerprint, each of them the only eligible vertex of its side with that
  fingerprint. So a fingerprint that two or more eligible vertices share, on the primary or
  on the secondary side, gets no match in that invocation.
\<close>

theorem ambiguous_fingerprints_deferred:
  "(\<forall>bb \<in> set (new_pairs fp (snd (snd (snd (FindFixedPoints this p s V1 V2 fp))))).
      GetPrime p (primary_vertex bb) = GetPrime s (secondary_vertex bb)
      \<and> eligible_with this p V1 (GetPrime p (primary_vertex bb)) = [primary_vertex bb]
      \<and> eligible_with this s V2 (GetPrime s (secondary_vertex bb)) = [secondary_vertex bb])
 \<and> (2 \<le> length (eligible_with this p V1 k) \<or> 2 \<le> length (eligible_with this s V2 k) \<longrightarrow>
      (\<forall>bb \<in> set (new_pairs fp (snd (snd (snd (FindFixedPoints this p s V1 V2 fp))))).
         GetPrime p (primary_vertex bb) \<noteq> k \<and> GetPrime s (secondary_vertex bb) \<noteq> k))"
proof (intro conjI ballI impI)
  fix bb
  assume bb: "bb \<in> set (new_pairs fp (snd (snd (snd (FindFixedPoints this p s V1 V2 fp)))))"
  from new_pair_D [OF bb]
  have eq: "GetPrime p (primary_vertex bb) = GetPrime s (secondary_vertex bb)"
    and v1: "primary_vertex bb \<in> set V1" "eligible this p (primary_vertex bb)"
    and v2: "secondary_vertex bb \<in> set V2" "eligible this s (secondary_vertex bb)"
    and l1: "length (eligible_with this p V1 (GetPrime p (primary_vertex bb))) = 1"
    and l2: "length (eligible_with this s V2 (GetPrime s (secondary_vertex bb))) = 1"
    by auto
  show "GetPrime p (primary_vertex bb) = GetPrime s (secondary_vertex bb)"
    by (fact eq)
  show "eligible_with this p V1 (GetPrime p (primary_vertex bb)) = [primary_vertex bb]"
    using l1 v1 unfolding eligible_with_def by (intro singleton_filter) auto
  show "eligible_with this s V2 (GetPrime s (secondary_vertex bb)) = [secondary_vertex bb]"
    using l2 v2 unfolding eligible_with_def by (intro singleton_filter) auto
next
  fix bb
  assume amb: "2 \<le> length (eligible_with this p V1 k) \<or> 2 \<le> length (eligible_with this s V2 k)"
    and bb: "bb \<in> set (new_pairs fp (snd (snd (snd (FindFixedPoints this p s V1 V2 fp)))))"
  from new_pair_D [OF bb]
  have eq: "GetPrime p (primary_vertex bb) = GetPrime s (secondary_vertex bb)"
    and l1: "length (eligible_with this p V1 (GetPrime p (primary_vertex bb))) = 1"
    and l2: "length (eligible_with this s V2 (GetPrime s (secondary_vertex bb))) = 1"
    by auto
  show "GetPrime p (primary_vertex bb) \<noteq> k" 
    using amb eq l1 l2 by auto
  show "GetPrime s (secondary_vertex bb) \<noteq> k"
    using amb eq l1 l2 by auto
qed

theorem ambiguous_fingerprints_deferred_witness:
  "2 \<le> length (eligible_with (new_MatchingStepPrimeBasicBlock 2) scenario2_primary [0, 1] 30)
 \<and> length (eligible_with (new_MatchingStepPrimeBasicBlock 2) scenario2_secondary [0] 30) = 1
 \<and> new_pairs [] (snd (snd (snd (FindFixedPoints (new_MatchingStepPrimeBasicBlock 2)
       scenario2_primary scenario2_secondary [0, 1] [0] [])))) = []
 \<and> new_pairs [] (snd (snd (snd (FindFixedPoints (new_MatchingStepPrimeBasicBlock 2)
       scenario1_primary scenario1_secondary [0, 1] [0, 1] []))))
      = [\<lparr>primary_vertex = 0, secondary_vertex = 0,
          matching_step = ''basicBlock: prime matching (2 instructions minimum)''\<rparr>]
 \<and> eligible_with (new_MatchingStepPrimeBasicBlock 2) scenario1_primary [0, 1] 42 = [0]
 \<and> eligible_with (new_MatchingStepPrimeBasicBlock 2) scenario1_secondary [0, 1] 42 = [0]"
proof -
  have two: "eligible_with (new_MatchingStepPrimeBasicBlock 2) scenario2_primary [0, 1] 30 = [0, 1]"
    "eligible_with (new_MatchingStepPrimeBasicBlock 2) scenario2_secondary [0] 30 = [0]"
    by code_simp+
  have none: "new_pairs [] (snd (snd (snd (FindFixedPoints (new_MatchingStepPrimeBasicBlock 2)
       scenario2_primary scenario2_secondary [0, 1] [0] [])))) = []"
    by code_simp
  have one: "new_pairs [] (snd (snd (snd (FindFixedPoints (new_MatchingStepPrimeBasicBlock 2)
       scenario1_primary scenario1_secondary [0, 1] [0, 1] []))))
      = [\<lparr>primary_vertex = 0, secondary_vertex = 0,
          matching_step = ''basicBlock: prime matching (2 instructions minimum)''\<rparr>]"
    by code_simp
  have primes: "GetPrime scenario1_primary 0 = 42" "GetPrime scenario1_secondary 0 = 42"
    by (simp_all add: scenario1_primary_def scenario1_secondary_def flow_graph_of_def
          GetPrime_def prime_product_def)
  show ?thesis
    using two none one primes
          ambiguous_fingerprints_deferred [where this = "new_MatchingStepPrimeBasicBlock 2"
            and p = scenario2_primary and s = scenario2_secondary and ?V1.0 = "[0, 1]"
            and ?V2.0 = "[0]" and fp = "[]" and k = 30]
          ambiguous_fingerprints_deferred [where this = "new_MatchingStepPrimeBasicBlock 2"
            and p = scenario1_primary and s = scenario1_secondary and ?V1.0 = "[0, 1]"
            and ?V2.0 = "[0, 1]" and fp = "[]" and k = 42]
    by simp
qed

subsection \<open>What a call does to the Fixed Point and to the flow graphs\<close>

lemma fold_pair_up_vertex_list:
  "vertex_list (fst (snd (fold (pair_up name m1 m2) xs acc))) = vertex_list (fst (snd acc))
 \<and> vertex_list (fst (snd (snd (fold (pair_up name m1 m2) xs acc))))
     = vertex_list (fst (snd (snd acc)))"
proof (induction xs arbitrary: acc)
  case Nil
  show ?case by simp
next
  case (Cons e xs)
  obtain b p s fp where acc: "acc = (b, p, s, fp)"
    by (cases acc) auto
  show ?case
    by (simp add: Cons.IH)
       (simp add: acc pair_up_def AddFixedPoint_def Let_def split: option.splits)
qed

lemma FindFixedPoints_vertex_list:
  "vertex_list (fst (snd (FindFixedPoints this p s V1 V2 fp))) = vertex_list p"
  "vertex_list (fst (snd (snd (FindFixedPoints this p s V1 V2 fp)))) = vertex_list s"
  by (simp_all add: FindFixedPoints_def FindFixedPointsBasicBlockInternal_def
        fold_pair_up_vertex_list Let_def)

lemma FindFixedPoints_extends:
  "snd (snd (snd (FindFixedPoints this p s V1 V2 fp)))
     = fp @ new_pairs fp (snd (snd (snd (FindFixedPoints this p s V1 V2 fp))))"
  by (simp add: FindFixedPoints_def FindFixedPointsBasicBlockInternal_def
        fold_pair_up_fixed_point new_pairs_def Let_def)

lemma FindFixedPoints_found:
  "fst (FindFixedPoints this p s V1 V2 fp)
     \<longleftrightarrow> new_pairs fp (snd (snd (snd (FindFixedPoints this p s V1 V2 fp)))) \<noteq> []"
  by (simp add: FindFixedPoints_new_pairs)
     (simp add: FindFixedPoints_def FindFixedPointsBasicBlockInternal_def
        fold_pair_up_found Let_def)

lemma distinct_by_count:
  "(\<forall>e \<in> set xs. length (filter (\<lambda>e'. f e' = f e) xs) \<le> 1) \<Longrightarrow> distinct (map f xs)"
proof (induction xs)
  case Nil
  show ?case by simp
next
  case (Cons x xs)
  have "f x \<notin> f ` set xs"
  proof
    assume "f x \<in> f ` set xs"
    then obtain y where "y \<in> set xs" "f y = f x" by auto
    then have "filter (\<lambda>e'. f e' = f x) xs \<noteq> []"
      by (auto simp: filter_empty_conv)
    then have "0 < length (filter (\<lambda>e'. f e' = f x) xs)" by simp
    with Cons.prems show False by simp
  qed
  moreover have "distinct (map f xs)"
  proof (rule Cons.IH, rule ballI)
    fix e assume e: "e \<in> set xs"
    with Cons.prems have "length (filter (\<lambda>e'. f e' = f e) (x # xs)) \<le> 1" by simp
    then show "length (filter (\<lambda>e'. f e' = f e) xs) \<le> 1"
      by (simp split: if_splits)
  qed
  ultimately show ?case by simp
qed

lemma distinct_unique_keys:
  "distinct (map fst (filter (\<lambda>e. count_key (fst e) m = 1 \<and> Q e) m))"
proof (rule distinct_by_count, rule ballI)
  fix e assume "e \<in> set (filter (\<lambda>e. count_key (fst e) m = 1 \<and> Q e) m)"
  then have one: "count_key (fst e) m = 1" by simp
  have "length (filter (\<lambda>e'. fst e' = fst e) (filter (\<lambda>e. count_key (fst e) m = 1 \<and> Q e) m))
          = length (filter (\<lambda>e. count_key (fst e) m = 1 \<and> Q e) (filter (\<lambda>e'. fst e' = fst e) m))"
    by (simp add: conj_commute)
  also have "\<dots> \<le> length (filter (\<lambda>e'. fst e' = fst e) m)"
    by (rule length_filter_le)
  also have "\<dots> = 1"
    using one by (simp add: count_key_def)
  finally show "length (filter (\<lambda>e'. fst e' = fst e)
                   (filter (\<lambda>e. count_key (fst e) m = 1 \<and> Q e) m)) \<le> 1" .
qed

lemma unique_pairs_fst:
  "map fst (unique_pairs m1 m2 xs)
     = map snd (filter (\<lambda>e. count_key (fst e) m1 = 1
                          \<and> (count_key (fst e) m2 = 1 \<and> map_of m2 (fst e) \<noteq> None)) xs)"
  by (induction xs) (auto simp: unique_pairs_def split: option.splits)

lemma unique_pairs_snd:
  "map snd (unique_pairs m1 m2 xs)
     = map (\<lambda>k. the (map_of m2 k))
         (map fst (filter (\<lambda>e. count_key (fst e) m1 = 1
                          \<and> (count_key (fst e) m2 = 1 \<and> map_of m2 (fst e) \<noteq> None)) xs))"
  by (induction xs) (auto simp: unique_pairs_def split: option.splits)

lemma distinct_unique_pairs_fst:
  assumes keyed: "\<forall>e \<in> set m1. fst e = K (snd e)"
  shows "distinct (map fst (unique_pairs m1 m2 m1))"
proof -
  define ys where "ys = filter (\<lambda>e. count_key (fst e) m1 = 1
                \<and> (count_key (fst e) m2 = 1 \<and> map_of m2 (fst e) \<noteq> None)) m1"
  have keys: "distinct (map fst ys)"
    unfolding ys_def by (rule distinct_unique_keys)
  have "set ys \<subseteq> set m1"
    by (auto simp: ys_def)
  with keyed have eq: "map fst ys = map K (map snd ys)"
    by auto
  from keys have "distinct (map K (map snd ys))"
    unfolding eq .
  with distinct_map [of K "map snd ys"] have "distinct (map snd ys)"
    by blast
  then show ?thesis
    by (simp add: unique_pairs_fst ys_def)
qed

lemma distinct_unique_pairs_snd:
  assumes keyed: "\<forall>e \<in> set m2. fst e = K (snd e)"
  shows "distinct (map snd (unique_pairs m1 m2 m1))"
proof -
  define ys where "ys = filter (\<lambda>e. count_key (fst e) m1 = 1
                \<and> (count_key (fst e) m2 = 1 \<and> map_of m2 (fst e) \<noteq> None)) m1"
  have keys: "distinct (map fst ys)"
    unfolding ys_def by (rule distinct_unique_keys)
  have inj: "inj_on (\<lambda>k. the (map_of m2 k)) (set (map fst ys))"
  proof (rule inj_onI)
    fix k k'
    assume k: "k \<in> set (map fst ys)" and k': "k' \<in> set (map fst ys)"
      and same: "the (map_of m2 k) = the (map_of m2 k')"
    from k obtain v where v: "map_of m2 k = Some v" by (auto simp: ys_def)
    from k' obtain v' where v': "map_of m2 k' = Some v'" by (auto simp: ys_def)
    from same v v' have "v' = v" by simp
    with v v' have "(k, v) \<in> set m2" "(k', v) \<in> set m2"
      by (auto dest: map_of_SomeD)
    with keyed have "k = K v" "k' = K v" by auto
    then show "k = k'" by simp
  qed
  from keys inj distinct_map [of "\<lambda>k. the (map_of m2 k)" "map fst ys"]
  have "distinct (map (\<lambda>k. the (map_of m2 k)) (map fst ys))"
    by blast
  then show ?thesis
    unfolding unique_pairs_snd ys_def .
qed

lemma keyed_GetUnmatchedBasicBlocksByPrime:
  "\<forall>e \<in> set (GetUnmatchedBasicBlocksByPrime this fg vs m). fst e = GetPrime fg (snd e)"
  by (auto simp: set_GetUnmatchedBasicBlocksByPrime)

lemma FindFixedPoints_distinct_new:
  "distinct (map primary_vertex
     (new_pairs fp (snd (snd (snd (FindFixedPoints this p s V1 V2 fp))))))"
  "distinct (map secondary_vertex
     (new_pairs fp (snd (snd (snd (FindFixedPoints this p s V1 V2 fp))))))"
proof -
  have fst_eq: "primary_vertex \<circ> make_pair (step_name this) = fst"
    and snd_eq: "secondary_vertex \<circ> make_pair (step_name this) = snd"
    by (auto simp: make_pair_def)
  show "distinct (map primary_vertex
     (new_pairs fp (snd (snd (snd (FindFixedPoints this p s V1 V2 fp))))))"
    using distinct_unique_pairs_fst [OF keyed_GetUnmatchedBasicBlocksByPrime]
    by (simp add: FindFixedPoints_new_pairs fst_eq)
  show "distinct (map secondary_vertex
     (new_pairs fp (snd (snd (snd (FindFixedPoints this p s V1 V2 fp))))))"
    using distinct_unique_pairs_snd [OF keyed_GetUnmatchedBasicBlocksByPrime]
    by (simp add: FindFixedPoints_new_pairs snd_eq)
qed

lemma FindFixedPoints_new_from_sets:
  "primary_vertex ` set (new_pairs fp (snd (snd (snd (FindFixedPoints this p s V1 V2 fp)))))
     \<subseteq> set V1"
  "secondary_vertex ` set (new_pairs fp (snd (snd (snd (FindFixedPoints this p s V1 V2 fp)))))
     \<subseteq> set V2"
  using new_pair_D [of _ fp this p s V1 V2] by auto

lemma FindFixedPoints_honest: "honest_report (FindFixedPoints this)"
  unfolding honest_report_def
proof (intro allI impI)
  fix p s V1 V2 fp
  let ?fp' = "snd (snd (snd (FindFixedPoints this p s V1 V2 fp)))"
  assume "fst (FindFixedPoints this p s V1 V2 fp)"
  then have "new_pairs fp ?fp' \<noteq> []"
    by (simp add: FindFixedPoints_found)
  then obtain bb where bb: "bb \<in> set (new_pairs fp ?fp')"
    by (cases "new_pairs fp ?fp'") auto
  then have "bb \<in> set ?fp'"
    unfolding new_pairs_def by (rule in_set_dropD)
  moreover from bb have "primary_vertex bb \<in> set V1" "secondary_vertex bb \<in> set V2"
    using FindFixedPoints_new_from_sets [of fp this p s V1 V2] by auto
  ultimately show "\<exists>bb \<in> set ?fp'. primary_vertex bb \<in> set V1 \<and> secondary_vertex bb \<in> set V2"
    by blast
qed

subsection \<open>The invariant of a run\<close>

lemma run_invariant_initial: "run_invariant (initial_state p s)"
  by (simp add: run_invariant_def initial_state_def)

lemma invoke_FindFixedPoints_invariant:
  assumes inv: "run_invariant st"
  shows "run_invariant (snd (invoke (FindFixedPoints this) st))"
proof -
  let ?r = "FindFixedPoints this (primary_graph st) (secondary_graph st)
              (unmatched1 st) (unmatched2 st) (accepted st)"
  let ?fp' = "snd (snd (snd ?r))"
  let ?new = "new_pairs (accepted st) ?fp'"
  have st': "snd (invoke (FindFixedPoints this) st)
      = \<lparr>primary_graph = fst (snd ?r), secondary_graph = fst (snd (snd ?r)),
         unmatched1 = filter (\<lambda>v. v \<notin> set (map primary_vertex ?fp')) (unmatched1 st),
         unmatched2 = filter (\<lambda>v. v \<notin> set (map secondary_vertex ?fp')) (unmatched2 st),
         accepted = ?fp'\<rparr>"
    by (simp add: invoke_def split: prod.splits)
  have ext: "?fp' = accepted st @ ?new"
    by (rule FindFixedPoints_extends)
  have new1: "primary_vertex ` set ?new \<subseteq> set (unmatched1 st)"
    and new2: "secondary_vertex ` set ?new \<subseteq> set (unmatched2 st)"
    by (rule FindFixedPoints_new_from_sets)+
  from inv have old1: "distinct (map primary_vertex (accepted st))"
    and old2: "distinct (map secondary_vertex (accepted st))"
    and u1: "\<And>v. v \<in> set (unmatched1 st) \<longleftrightarrow>
              v \<in> set (vertex_list (primary_graph st))
              \<and> v \<notin> set (map primary_vertex (accepted st))"
    and u2: "\<And>v. v \<in> set (unmatched2 st) \<longleftrightarrow>
              v \<in> set (vertex_list (secondary_graph st))
              \<and> v \<notin> set (map secondary_vertex (accepted st))"
    by (simp_all add: run_invariant_def)
  have d1: "distinct (map primary_vertex ?fp')"
  proof -
    have "set (map primary_vertex (accepted st)) \<inter> set (map primary_vertex ?new) = {}"
      using new1 u1 by auto
    with old1 FindFixedPoints_distinct_new(1) [of "accepted st" this]
    have "distinct (map primary_vertex (accepted st @ ?new))"
      by simp
    with ext show ?thesis by simp
  qed
  have d2: "distinct (map secondary_vertex ?fp')"
  proof -
    have "set (map secondary_vertex (accepted st)) \<inter> set (map secondary_vertex ?new) = {}"
      using new2 u2 by auto
    with old2 FindFixedPoints_distinct_new(2) [of "accepted st" this]
    have "distinct (map secondary_vertex (accepted st @ ?new))"
      by simp
    with ext show ?thesis by simp
  qed
  have sub1: "set (map primary_vertex (accepted st)) \<subseteq> set (map primary_vertex ?fp')"
    and sub2: "set (map secondary_vertex (accepted st)) \<subseteq> set (map secondary_vertex ?fp')"
    by (subst ext, simp)+
  have m1: "v \<in> set (filter (\<lambda>v. v \<notin> set (map primary_vertex ?fp')) (unmatched1 st)) \<longleftrightarrow>
              v \<in> set (vertex_list (primary_graph st)) \<and> v \<notin> set (map primary_vertex ?fp')" for v
    using u1 [of v] sub1 by auto
  have m2: "v \<in> set (filter (\<lambda>v. v \<notin> set (map secondary_vertex ?fp')) (unmatched2 st)) \<longleftrightarrow>
              v \<in> set (vertex_list (secondary_graph st)) \<and> v \<notin> set (map secondary_vertex ?fp')" for v
    using u2 [of v] sub2 by auto
  show ?thesis
    unfolding st' run_invariant_def
    using d1 d2 m1 m2 by (simp add: FindFixedPoints_vertex_list)
qed

lemma reachable_trans:
  "reachable steps st st' \<Longrightarrow> reachable steps st' st'' \<Longrightarrow> reachable steps st st''"
proof -
  assume first: "reachable steps st st'"
  have "reachable steps st' st'' \<Longrightarrow> reachable steps st st''"
  proof (induction rule: reachable.induct)
    case start
    show ?case by (rule first)
  next
    case (after_step st3 step)
    then show ?case by (blast intro: reachable.after_step)
  qed
  then show "reachable steps st' st'' \<Longrightarrow> reachable steps st st''" .
qed

lemma run_pass_reachable:
  "set ss \<subseteq> set steps \<Longrightarrow> reachable steps st (snd (run_pass ss st))"
proof (induction ss arbitrary: st)
  case Nil
  show ?case by (simp add: reachable.start)
next
  case (Cons step ss)
  have one: "reachable steps st (snd (invoke step st))"
    using Cons.prems by (intro reachable.after_step reachable.start) simp
  have rest: "reachable steps (snd (invoke step st)) (snd (run_pass ss (snd (invoke step st))))"
    using Cons.prems by (intro Cons.IH) simp
  have "snd (run_pass (step # ss) st) = snd (run_pass ss (snd (invoke step st)))"
    by (simp split: prod.splits)
  with reachable_trans [OF one rest] show ?case
    by simp
qed

lemma driver_reachable:
  "driver fuel steps st = Some (log, st') \<Longrightarrow> reachable steps st st'"
proof (induction fuel arbitrary: st log)
  case 0
  then show ?case by simp
next
  case (Suc fuel)
  have pass: "reachable steps st (snd (run_pass steps st))"
    by (rule run_pass_reachable) simp
  show ?case
  proof (cases "True \<in> set (fst (run_pass steps st))")
    case True
    with Suc.prems obtain log' where "driver fuel steps (snd (run_pass steps st)) = Some (log', st')"
      by (auto split: prod.splits option.splits)
    then have "reachable steps (snd (run_pass steps st)) st'"
      by (rule Suc.IH)
    with pass show ?thesis by (rule reachable_trans)
  next
    case False
    with Suc.prems have "st' = snd (run_pass steps st)"
      by (auto split: prod.splits)
    with pass show ?thesis by simp
  qed
qed

text \<open>
  Claim C1. In a run of the driver over a catalogue of prime matching steps, every state
  the run passes through satisfies the invariant: no primary vertex and no secondary
  vertex is in more than one pair of the Fixed Point, and a vertex of a flow graph is in
  that graph's unmatched set exactly when the Fixed Point has no entry for it. The run's
  first state (empty Fixed Point, every vertex unmatched) satisfies it, every step
  preserves it, and so the state the driver ends in satisfies it.
\<close>

theorem fixed_point_injective:
  "run_invariant (initial_state p s)
 \<and> (run_invariant st \<and> reachable (map FindFixedPoints catalogue) st st' \<longrightarrow> run_invariant st')
 \<and> (run_invariant st \<and> driver fuel (map FindFixedPoints catalogue) st = Some (log, st')
      \<longrightarrow> run_invariant st')"
proof -
  have preserved: "run_invariant st''"
    if "reachable (map FindFixedPoints catalogue) st st''" and "run_invariant st" for st''
    using that
  proof (induction rule: reachable.induct)
    case start
    then show ?case by simp
  next
    case (after_step st3 step)
    then obtain this where "step = FindFixedPoints this" by auto
    with after_step show ?case
      by (simp add: invoke_FindFixedPoints_invariant)
  qed
  show ?thesis
    using preserved driver_reachable [of fuel "map FindFixedPoints catalogue" st log st']
    by (auto simp: run_invariant_initial)
qed
subsection \<open>Termination of the driver\<close>

lemma invoke_unmatched_subset:
  "set (unmatched1 (snd (invoke step st))) \<subseteq> set (unmatched1 st)"
  "set (unmatched2 (snd (invoke step st))) \<subseteq> set (unmatched2 st)"
  by (auto simp: invoke_def split: prod.splits)

lemma invoke_unmatched_strict:
  assumes "honest_report step" and "fst (invoke step st)"
  shows "set (unmatched1 (snd (invoke step st))) \<subset> set (unmatched1 st)
       \<and> set (unmatched2 (snd (invoke step st))) \<subset> set (unmatched2 st)"
proof -
  let ?r = "step (primary_graph st) (secondary_graph st) (unmatched1 st) (unmatched2 st)
              (accepted st)"
  from assms(2) have "fst ?r"
    by (simp add: invoke_def split: prod.splits)
  with assms(1) obtain bb where bb: "bb \<in> set (snd (snd (snd ?r)))"
    and v1: "primary_vertex bb \<in> set (unmatched1 st)"
    and v2: "secondary_vertex bb \<in> set (unmatched2 st)"
    unfolding honest_report_def by blast
  from bb have "primary_vertex bb \<notin> set (unmatched1 (snd (invoke step st)))"
    and "secondary_vertex bb \<notin> set (unmatched2 (snd (invoke step st)))"
    by (auto simp: invoke_def split: prod.splits)
  with v1 v2 invoke_unmatched_subset [of step st] show ?thesis
    by blast
qed

lemma run_pass_unmatched_subset:
  "set (unmatched1 (snd (run_pass steps st))) \<subseteq> set (unmatched1 st)
 \<and> set (unmatched2 (snd (run_pass steps st))) \<subseteq> set (unmatched2 st)"
proof (induction steps arbitrary: st)
  case Nil
  show ?case by simp
next
  case (Cons step steps)
  have "snd (run_pass (step # steps) st) = snd (run_pass steps (snd (invoke step st)))"
    by (simp split: prod.splits)
  with Cons.IH [of "snd (invoke step st)"] invoke_unmatched_subset [of step st]
  show ?case by auto
qed

lemma run_pass_unmatched_strict:
  assumes "\<forall>step \<in> set steps. honest_report step" and "True \<in> set (fst (run_pass steps st))"
  shows "set (unmatched1 (snd (run_pass steps st))) \<subset> set (unmatched1 st)
       \<and> set (unmatched2 (snd (run_pass steps st))) \<subset> set (unmatched2 st)"
  using assms
proof (induction steps arbitrary: st)
  case Nil
  then show ?case by simp
next
  case (Cons step steps)
  let ?st' = "snd (invoke step st)"
  have state: "snd (run_pass (step # steps) st) = snd (run_pass steps ?st')"
    and reports: "fst (run_pass (step # steps) st) = fst (invoke step st) # fst (run_pass steps ?st')"
    by (simp_all split: prod.splits)
  show ?case
  proof (cases "fst (invoke step st)")
    case True
    with Cons.prems have "set (unmatched1 ?st') \<subset> set (unmatched1 st)
                        \<and> set (unmatched2 ?st') \<subset> set (unmatched2 st)"
      by (intro invoke_unmatched_strict) simp_all
    with run_pass_unmatched_subset [of steps ?st'] show ?thesis
      unfolding state by blast
  next
    case False
    with Cons.prems reports have "True \<in> set (fst (run_pass steps ?st'))"
      by simp
    with Cons.prems have "set (unmatched1 (snd (run_pass steps ?st'))) \<subset> set (unmatched1 ?st')
                        \<and> set (unmatched2 (snd (run_pass steps ?st'))) \<subset> set (unmatched2 ?st')"
      by (intro Cons.IH) simp_all
    with invoke_unmatched_subset [of step st] show ?thesis
      unfolding state by blast
  qed
qed

lemma driver_Suc_progress:
  "True \<in> set (fst (run_pass steps st)) \<Longrightarrow>
     driver (Suc fuel) steps st =
       (case driver fuel steps (snd (run_pass steps st)) of
          None \<Rightarrow> None
        | Some (log, st'') \<Rightarrow> Some (fst (run_pass steps st) # log, st''))"
  by (cases "run_pass steps st") (simp split: option.splits)

lemma driver_Suc_final:
  "True \<notin> set (fst (run_pass steps st)) \<Longrightarrow>
     driver (Suc fuel) steps st = Some ([fst (run_pass steps st)], snd (run_pass steps st))"
  by (cases "run_pass steps st") simp


lemma driver_terminates_bounded:
  assumes honest: "\<forall>step \<in> set steps. honest_report step"
    and bound: "min (card (set (unmatched1 st))) (card (set (unmatched2 st))) \<le> k"
  shows "\<exists>log st'. driver (Suc k) steps st = Some (log, st') \<and> log \<noteq> []
           \<and> length (butlast log) \<le> min (card (set (unmatched1 st))) (card (set (unmatched2 st)))
           \<and> True \<notin> set (last log) \<and> (\<forall>r \<in> set (butlast log). True \<in> set r)"
  using bound
proof (induction k arbitrary: st)
  case 0
  have "True \<notin> set (fst (run_pass steps st))"
  proof
    assume "True \<in> set (fst (run_pass steps st))"
    with honest have "set (unmatched1 (snd (run_pass steps st))) \<subset> set (unmatched1 st)
                    \<and> set (unmatched2 (snd (run_pass steps st))) \<subset> set (unmatched2 st)"
      by (rule run_pass_unmatched_strict)
    then have "set (unmatched1 st) \<noteq> {}" "set (unmatched2 st) \<noteq> {}"
      by auto
    with "0.prems" show False
      by (auto simp: min_def split: if_splits)
  qed
  then show ?case
    by (simp add: driver_Suc_final del: driver.simps)
next
  case (Suc k)
  let ?st' = "snd (run_pass steps st)"
  show ?case
  proof (cases "True \<in> set (fst (run_pass steps st))")
    case False
    then show ?thesis
      by (simp add: driver_Suc_final del: driver.simps)
  next
    case True
    with honest have "set (unmatched1 ?st') \<subset> set (unmatched1 st)
                    \<and> set (unmatched2 ?st') \<subset> set (unmatched2 st)"
      by (rule run_pass_unmatched_strict)
    then have less: "card (set (unmatched1 ?st')) < card (set (unmatched1 st))"
      "card (set (unmatched2 ?st')) < card (set (unmatched2 st))"
      by (simp_all add: psubset_card_mono)
    with Suc.prems have "min (card (set (unmatched1 ?st'))) (card (set (unmatched2 ?st'))) \<le> k"
      by (simp add: min_def split: if_splits)
    from Suc.IH [OF this] obtain log st'' where
      run: "driver (Suc k) steps ?st' = Some (log, st'')" and ne: "log \<noteq> []"
      and len: "length (butlast log)
                  \<le> min (card (set (unmatched1 ?st'))) (card (set (unmatched2 ?st')))"
      and final: "True \<notin> set (last log)" and others: "\<forall>r \<in> set (butlast log). True \<in> set r"
      by blast
    have "driver (Suc (Suc k)) steps st = Some (fst (run_pass steps st) # log, st'')"
      unfolding driver_Suc_progress [OF True] run by simp
    moreover have "length (butlast (fst (run_pass steps st) # log))
             \<le> min (card (set (unmatched1 st))) (card (set (unmatched2 st)))"
    proof -
      have "length (butlast (fst (run_pass steps st) # log)) = Suc (length (butlast log))"
        using ne by simp
      with len less show ?thesis by arith
    qed
    moreover have "True \<notin> set (last (fst (run_pass steps st) # log))"
      using ne final by simp
    moreover have "\<forall>r \<in> set (butlast (fst (run_pass steps st) # log)). True \<in> set r"
      using ne others True by simp
    ultimately show ?thesis
      by blast
  qed
qed

text \<open>The invariant at work on the first example scenario, after one step and at the end of a run.\<close>

theorem fixed_point_injective_witness:
  "run_invariant (initial_state scenario1_primary scenario1_secondary)
 \<and> run_invariant (snd (invoke (FindFixedPoints (new_MatchingStepPrimeBasicBlock 2))
                    (initial_state scenario1_primary scenario1_secondary)))
 \<and> accepted (snd (invoke (FindFixedPoints (new_MatchingStepPrimeBasicBlock 2))
                    (initial_state scenario1_primary scenario1_secondary)))
      = [\<lparr>primary_vertex = 0, secondary_vertex = 0,
          matching_step = ''basicBlock: prime matching (2 instructions minimum)''\<rparr>]
 \<and> unmatched1 (snd (invoke (FindFixedPoints (new_MatchingStepPrimeBasicBlock 2))
                    (initial_state scenario1_primary scenario1_secondary))) = [1]
 \<and> unmatched2 (snd (invoke (FindFixedPoints (new_MatchingStepPrimeBasicBlock 2))
                    (initial_state scenario1_primary scenario1_secondary))) = [1]
 \<and> run_invariant (snd (the (driver 5
        (map FindFixedPoints [new_MatchingStepPrimeBasicBlock 4, new_MatchingStepPrimeBasicBlock 2])
        (initial_state scenario1_primary scenario1_secondary))))"
proof -
  let ?steps = "map FindFixedPoints
                  [new_MatchingStepPrimeBasicBlock 4, new_MatchingStepPrimeBasicBlock 2]"
  let ?init = "initial_state scenario1_primary scenario1_secondary"
  have reached: "reachable ?steps ?init
                   (snd (invoke (FindFixedPoints (new_MatchingStepPrimeBasicBlock 2)) ?init))"
    by (rule reachable.after_step [OF reachable.start]) simp
  have vals: "accepted (snd (invoke (FindFixedPoints (new_MatchingStepPrimeBasicBlock 2)) ?init))
      = [\<lparr>primary_vertex = 0, secondary_vertex = 0,
          matching_step = ''basicBlock: prime matching (2 instructions minimum)''\<rparr>]"
    "unmatched1 (snd (invoke (FindFixedPoints (new_MatchingStepPrimeBasicBlock 2)) ?init)) = [1]"
    "unmatched2 (snd (invoke (FindFixedPoints (new_MatchingStepPrimeBasicBlock 2)) ?init)) = [1]"
    by code_simp+
  have honest: "\<forall>step \<in> set ?steps. honest_report step"
    by (simp add: FindFixedPoints_honest)
  have small: "min (card (set (unmatched1 ?init))) (card (set (unmatched2 ?init))) \<le> 4"
    by code_simp
  from driver_terminates_bounded [OF honest small] obtain log st' where
    "driver (Suc 4) ?steps ?init = Some (log, st')"
    by blast
  then have run: "driver 5 ?steps ?init = Some (log, snd (the (driver 5 ?steps ?init)))"
    by (simp add: eval_nat_numeral)
  show ?thesis
    using reached vals run
      fixed_point_injective [where p = scenario1_primary and s = scenario1_secondary
        and st = ?init
        and catalogue = "[new_MatchingStepPrimeBasicBlock 4, new_MatchingStepPrimeBasicBlock 2]"
        and st' = "snd (invoke (FindFixedPoints (new_MatchingStepPrimeBasicBlock 2)) ?init)"]
      fixed_point_injective [where p = scenario1_primary and s = scenario1_secondary
        and st = ?init and fuel = 5 and log = log
        and catalogue = "[new_MatchingStepPrimeBasicBlock 4, new_MatchingStepPrimeBasicBlock 2]"
        and st' = "snd (the (driver 5 ?steps ?init))"]
    by simp
qed




subsection \<open>The prime-product fingerprint\<close>

lemma prime_product_mset:
  "prime_product prime_of xs = prod_mset (image_mset prime_of (mset xs))"
  by (simp add: prime_product_def prod_mset_prod_list [symmetric])

lemma prime_product_pos:
  "\<forall>c. 0 < prime_of c \<Longrightarrow> 0 < prime_product prime_of xs"
  by (induction xs) (simp_all add: prime_product_def)

lemma prime_product_append:
  "prime_product prime_of (xs @ ys) = prime_product prime_of xs * prime_product prime_of ys"
  by (simp add: prime_product_def)

text \<open>
  Claim C5. Two blocks with the same multiset of instruction classes, in particular a
  block and any permutation of it, have the same prime-product fingerprint. With a table
  that gives distinct classes distinct primes, replacing the class of the instruction at
  any one position by a different class changes the fingerprint.
\<close>

theorem prime_product_order_and_content:
  "(mset ys = mset xs \<longrightarrow> prime_product prime_of ys = prime_product prime_of xs)
 \<and> (prime_table prime_of \<and> i < length xs \<and> c \<noteq> xs ! i \<longrightarrow>
      prime_product prime_of (xs[i := c]) \<noteq> prime_product prime_of xs)"
proof (intro conjI impI)
  assume "mset ys = mset xs"
  then show "prime_product prime_of ys = prime_product prime_of xs"
    by (simp add: prime_product_mset)
next
  assume a: "prime_table prime_of \<and> i < length xs \<and> c \<noteq> xs ! i"
  then have inj: "inj prime_of" and pos: "\<forall>c. 0 < prime_of c"
    by (auto simp: prime_table_def is_prime_def intro: less_trans [OF zero_less_one])
  from a have i: "i < length xs" and c: "c \<noteq> xs ! i" by simp_all
  from inj c have differ: "prime_of c \<noteq> prime_of (xs ! i)"
    by (auto dest: injD)
  have before: "prime_product prime_of xs
      = prime_product prime_of (take i xs) * (prime_of (xs ! i)
          * prime_product prime_of (drop (Suc i) xs))"
    by (subst id_take_nth_drop [OF i], simp only: prime_product_append)
       (simp add: prime_product_def)
  have after: "prime_product prime_of (xs[i := c])
      = prime_product prime_of (take i xs) * (prime_of c
          * prime_product prime_of (drop (Suc i) xs))"
    by (subst upd_conv_take_nth_drop [OF i], simp only: prime_product_append)
       (simp add: prime_product_def)
  from pos have "0 < prime_product prime_of (take i xs)"
    "0 < prime_product prime_of (drop (Suc i) xs)"
    by (simp_all add: prime_product_pos)
  with differ show "prime_product prime_of (xs[i := c]) \<noteq> prime_product prime_of xs"
    unfolding before after by simp
qed

lemma prime_table_example: "prime_table example_prime"
proof -
  have "inj example_prime"
  proof (rule injI)
    fix a b assume "example_prime a = example_prime b"
    then show "a = b" by (cases a; cases b) simp_all
  qed
  moreover have "is_prime (example_prime c)" for c
    by (cases c) (simp_all add: is_prime_def, code_simp+)
  ultimately show ?thesis
    by (simp add: prime_table_def)
qed

theorem prime_product_order_and_content_witness:
  "mset [Add, Mov, Ret] = mset [Mov, Add, Ret]
 \<and> prime_product example_prime [Add, Mov, Ret] = 42
 \<and> prime_product example_prime [Mov, Add, Ret] = 42
 \<and> prime_table example_prime
 \<and> prime_product example_prime ([Mov, Add, Ret][1 := Cmp]) = 70"
proof -
  have same: "mset [Add, Mov, Ret] = mset [Mov, Add, Ret]"
    by (simp add: add_mset_commute)
  have products: "prime_product example_prime [Mov, Add, Ret] = 42"
    "prime_product example_prime ([Mov, Add, Ret][1 := Cmp]) = 70"
    by (simp_all add: prime_product_def)
  show ?thesis
    using same products prime_table_example
      prime_product_order_and_content [where prime_of = example_prime
        and xs = "[Mov, Add, Ret]" and ys = "[Add, Mov, Ret]" and i = 1 and c = Cmp]
    by simp
qed

subsection \<open>Construction of the step\<close>

text \<open>
  Claim C7, amended. Constructing the prime matching step never fails and rejects no
  threshold: for every threshold, zero and the negative ones included, the constructor
  yields a step that records that threshold, named after it.
\<close>

theorem constructor_accepts_every_threshold:
  "m_min_instructions (new_MatchingStepPrimeBasicBlock n) = n
 \<and> step_name (new_MatchingStepPrimeBasicBlock n)
     = ''basicBlock: prime matching ('' @ StrCat_int n @ '' instructions minimum)''"
  by (simp add: new_MatchingStepPrimeBasicBlock_def)

theorem constructor_accepts_every_threshold_witness:
  "m_min_instructions (new_MatchingStepPrimeBasicBlock 4) = 4
 \<and> step_name (new_MatchingStepPrimeBasicBlock 4)
     = ''basicBlock: prime matching (4 instructions minimum)''"
proof -
  have "StrCat_int 4 = ''4''" by code_simp
  with constructor_accepts_every_threshold [of 4] show ?thesis by simp
qed

text \<open>
  The claim as stated, that a zero or negative threshold is rejected at construction, fails:
  the thresholds \<open>-1\<close> and \<open>0\<close> give steps like any other, and the step built with \<open>-1\<close>
  goes on to index both secondary blocks of the first example scenario.
\<close>

theorem constructor_rejects_nothing:
  "new_MatchingStepPrimeBasicBlock (- 1)
     = \<lparr>step_name = ''basicBlock: prime matching (-1 instructions minimum)'',
        m_min_instructions = - 1\<rparr>
 \<and> new_MatchingStepPrimeBasicBlock 0
     = \<lparr>step_name = ''basicBlock: prime matching (0 instructions minimum)'',
        m_min_instructions = 0\<rparr>
 \<and> GetUnmatchedBasicBlocksByPrime (new_MatchingStepPrimeBasicBlock (- 1))
       scenario1_secondary [0, 1] [] = [(2, 1), (42, 0)]"
  by code_simp

end
